theory Spec2Isabelle
  imports Main "HOL-Library.Word" "HOL-Library.AList" "HOL-Library.Signed_Division"
begin

section \<open>The UDP listener probe (probes/udplistener/udplistener.go)\<close>

text \<open>
  The probe is embedded with explicit state passing. Every method of \<open>*Probe\<close> becomes a
  function from the probe's state to its new state; what the method receives from its
  environment (the datagram read from the socket, the clock, the list of endpoints the
  discovery returns, the result of a socket write) is an argument. The mutex \<open>p.mu\<close>
  makes \<open>processMessage\<close>, \<open>outputResults\<close> and the flush of \<open>logErrs\<close> atomic, so each
  is one function application; the mutex itself has no field.
\<close>

subsection \<open>Constants and machine types\<close>

type_synonym int64 = "64 word"
type_synonym int32 = "32 word"
type_synonym byte = "8 word"

text \<open>Clock readings and durations of the codec's results, in nanoseconds.\<close>
type_synonym time = int

definition maxMsgSize :: nat where
  "maxMsgSize = 65536"

definition maxTargets :: nat where
  "maxTargets = 1024"

definition logThrottleThreshold :: int32 where
  "logThrottleThreshold = 10"

text \<open>
  Go's \<open>/\<close> on \<open>int64\<close> truncates towards zero; \<open>sdiv\<close> on \<open>int\<close> does the same, and
  \<open>word_of_int\<close> wraps the one quotient that leaves the range. The divisor is never 0
  where the probe divides (see \<open>outputLoop_tick\<close>).
\<close>
definition int64_quo :: "int64 \<Rightarrow> int64 \<Rightarrow> int64" where
  "int64_quo a b = word_of_int (sint a sdiv sint b)"

subsection \<open>Package udpmessage: the types the probe sees\<close>

text \<open>
  Modelled from the spec: package \<open>internal/udpmessage\<close> (\<open>Message\<close>, \<open>FlowState\<close>,
  \<open>FlowStateMap\<close>, \<open>Results\<close>, \<open>NewMessage\<close>, \<open>ProcessOneWay\<close>) is not among the
  sources. The spec gives a message as \<open>{sourceID, sequenceNumber, sendTimestamp}\<close>, a flow
  state as \<open>{previousSequence, lastReceiveTimestamp}\<close> kept per source identifier, and a
  result as \<open>{success, lostCount, delayed, interPacketDelay}\<close>. The spec gives sequence
  numbers no width and leaves their wrap-around open, so they are unbounded integers
  here, and so are \<open>lostCount\<close> and the delay; the probe converts both with
  \<open>int64(...)\<close> and \<open>.Nanoseconds()\<close> when it adds them to its counters.
\<close>

record Message =
  Src :: string
  Seq :: int
  sendTimestamp :: time

record FlowState =
  previousSequence :: int
  lastReceiveTimestamp :: time

type_synonym FlowStateMap = "string \<rightharpoonup> FlowState"

record Results =
  Success :: bool
  LostCount :: int
  Delayed :: bool
  InterPktDelay :: time

text \<open>
  \<open>NewMessage\<close> decodes a buffer or fails with an error, whose text is \<open>Inl\<close>. The byte
  layout belongs to the sender, so the decoder is a parameter of everything that calls it.
\<close>
type_synonym decoder = "byte list \<Rightarrow> string + Message"

text \<open>\<open>ProcessOneWay\<close> classifies a message against the flow states and updates them.\<close>
type_synonym classifier = "Message \<Rightarrow> FlowStateMap \<Rightarrow> time \<Rightarrow> Results \<times> FlowStateMap"

text \<open>
  Modelled from the spec: \<open>Message.ProcessOneWay\<close> of the absent package, after the
  spec's Flow State Tracker. An unseen source records its baseline and is a success;
  otherwise \<open>delta = sequenceNumber - previousSequence\<close>, and \<open>delta = 1\<close> is a success
  with the inter-packet delay \<open>receiveTimestamp - lastReceiveTimestamp\<close>, \<open>delta > 1\<close>
  loses \<open>delta - 1\<close> packets, both advancing the state; \<open>delta \<le> 0\<close> is delayed and
  leaves the state as it is. The spec bounds the number of sources by a configured limit
  without saying what happens at the limit; the map here is not bounded.
\<close>
definition ProcessOneWay :: classifier where
  "ProcessOneWay m fsm rxTS =
     (case fsm (Src m) of
        None \<Rightarrow>
          (\<lparr>Success = True, LostCount = 0, Delayed = False, InterPktDelay = 0\<rparr>,
           fsm(Src m \<mapsto> \<lparr>previousSequence = Seq m, lastReceiveTimestamp = rxTS\<rparr>))
      | Some fs \<Rightarrow>
          (let delta = Seq m - previousSequence fs in
           if delta = 1 then
             (\<lparr>Success = True, LostCount = 0, Delayed = False,
               InterPktDelay = rxTS - lastReceiveTimestamp fs\<rparr>,
              fsm(Src m \<mapsto> \<lparr>previousSequence = Seq m, lastReceiveTimestamp = rxTS\<rparr>))
           else if delta > 1 then
             (\<lparr>Success = False, LostCount = delta - 1, Delayed = False, InterPktDelay = 0\<rparr>,
              fsm(Src m \<mapsto> \<lparr>previousSequence = Seq m, lastReceiveTimestamp = rxTS\<rparr>))
           else
             (\<lparr>Success = False, LostCount = 0, Delayed = True, InterPktDelay = 0\<rparr>, fsm)))"

subsection \<open>The probe's state\<close>

text \<open>
  \<open>endpoint.Endpoint\<close> (package targets/endpoint, not among the sources): the probe reads
  only its \<open>Name\<close>.
\<close>
record endpoint =
  Name :: string

text \<open>\<open>probeErr\<close>: the two maps are association lists, \<open>map_of\<close> looks a key up.\<close>
record probeErr =
  throttleCt :: int32
  invalidMsgErrs :: "(string \<times> string) list"
  missingTargets :: "(string \<times> int64) list"

text \<open>
  \<open>probeRunResult\<close>. A \<open>metrics.Int\<close> (package metrics, not among the sources) wraps an
  \<open>int64\<close>: \<open>Inc\<close> adds 1, \<open>IncBy d\<close> adds \<open>d\<close>, \<open>Int64\<close> reads it.
\<close>
record probeRunResult =
  target :: string
  total :: int64
  success :: int64
  ipdUS :: int64
  lost :: int64
  delayed :: int64

text \<open>What the probe writes to its logger \<open>p.l\<close>, one constructor per call site.\<close>
datatype logLine =
    InvalidMessagesReceived "(string \<times> string) list"
  | UnknownTargetsSending "(string \<times> int64) list"
  | TooManyTargets nat nat
  | ErrorReceiving string
  | ErrorWritingEcho string string
  | ReplyTruncated int int string

text \<open>
  \<open>Probe\<close>. \<open>interval\<close> is \<open>p.opts.Interval\<close> in nanoseconds, \<open>packetsPerProbe\<close> is
  \<open>int64(p.c.GetPacketsPerProbe())\<close>, \<open>logLines\<close> is what \<open>p.l\<close> has received. The map
  \<open>p.res\<close> is an association list with one entry per key; Go leaves the order in which
  \<open>range\<close> visits a map open, and the order of the list stands for the order of a run.
  The name, the socket and the options that no function below reads have no field.
\<close>
record Probe =
  echoMode :: bool
  interval :: int64
  packetsPerProbe :: int64
  targets :: "endpoint list"
  fsm :: FlowStateMap
  errs :: probeErr
  res :: "(string \<times> probeRunResult) list"
  logLines :: "logLine list"

subsection \<open>processMessage\<close>

text \<open>\<open>m[k]\<close> on a \<open>map[string]int\<close>: the zero value when the key is absent.\<close>
definition countOf :: "(string \<times> int64) list \<Rightarrow> string \<Rightarrow> int64" where
  "countOf m k = (case map_of m k of None \<Rightarrow> 0 | Some c \<Rightarrow> c)"

text \<open>The \<open>if\<close>/\<open>else if\<close> chain that folds a result into the target's counters.\<close>
definition foldResult :: "Results \<Rightarrow> probeRunResult \<Rightarrow> probeRunResult" where
  "foldResult msgRes probeRes =
     (if Success msgRes then
        probeRes\<lparr>success := success probeRes + 1,
                 ipdUS := ipdUS probeRes + int64_quo (word_of_int (InterPktDelay msgRes)) 1000\<rparr>
      else if LostCount msgRes > 0 then
        probeRes\<lparr>lost := lost probeRes + word_of_int (LostCount msgRes)\<rparr>
      else if Delayed msgRes then
        probeRes\<lparr>delayed := delayed probeRes + 1\<rparr>
      else probeRes)"

definition processMessage ::
  "decoder \<Rightarrow> classifier \<Rightarrow> Probe \<Rightarrow> byte list \<Rightarrow> time \<Rightarrow> string \<Rightarrow> Probe" where
  "processMessage newMessage processOneWay p buf rxTS srcAddr =
     (case newMessage buf of
        Inl err \<Rightarrow>
          p\<lparr>errs := (errs p)\<lparr>invalidMsgErrs :=
               AList.update srcAddr err (invalidMsgErrs (errs p))\<rparr>\<rparr>
      | Inr msg \<Rightarrow>
          (let src = Src msg in
           case map_of (res p) src of
             None \<Rightarrow>
               p\<lparr>errs := (errs p)\<lparr>missingTargets :=
                    AList.update src (countOf (missingTargets (errs p)) src + 1)
                      (missingTargets (errs p))\<rparr>\<rparr>
           | Some probeRes \<Rightarrow>
               (let (msgRes, fsm') = processOneWay msg (fsm p) rxTS;
                    probeRes' = foldResult msgRes (probeRes\<lparr>total := total probeRes + 1\<rparr>)
                in p\<lparr>fsm := fsm', res := AList.update src probeRes' (res p)\<rparr>)))"

subsection \<open>Channels\<close>

text \<open>
  A buffered Go channel: its capacity and the values waiting in it, oldest first. A send
  on a channel with room appends and goes on; a send on a full channel does not complete
  until a receiver has taken a value, so it has no result here: \<open>None\<close> is the sender
  waiting in the statement \<open>ch <- x\<close>.
\<close>
record 'a chan =
  cap :: nat
  queue :: "'a list"

definition makeChan :: "nat \<Rightarrow> 'a chan" where
  "makeChan n = \<lparr>cap = n, queue = []\<rparr>"

definition chanSend :: "'a chan \<Rightarrow> 'a \<Rightarrow> 'a chan option" where
  "chanSend ch x =
     (if length (queue ch) < cap ch then Some (ch\<lparr>queue := queue ch @ [x]\<rparr>) else None)"

text \<open>
  \<open>echoMsg\<close>. An address is the text \<open>(*net.UDPAddr).String()\<close> gives. \<open>recvLoop\<close> never
  sets \<open>bufLen\<close>, which keeps Go's zero value.
\<close>
record echoMsg =
  addr :: string
  bufLen :: int
  buf :: "byte list"

subsection \<open>recvLoop, echoLoop and probeLoop\<close>

text \<open>What \<open>conn.ReadFromUDP(b)\<close> returns: an error, or the bytes \<open>b[:n]\<close> and the sender.\<close>
datatype readResult =
    ReadFailed string
  | Datagram "byte list" string

text \<open>
  One pass of the body of \<open>recvLoop\<close> after the check of \<open>ctx.Done()\<close>: the read, in
  echo mode the send of a copy to \<open>echoChan\<close>, then \<open>processMessage\<close>. The send is the
  plain statement \<open>echoChan <- e\<close>, with no \<open>select\<close> around it.
\<close>
definition recvLoop_body ::
  "decoder \<Rightarrow> classifier \<Rightarrow> Probe \<Rightarrow> echoMsg chan \<Rightarrow> readResult \<Rightarrow> time
     \<Rightarrow> (Probe \<times> echoMsg chan) option" where
  "recvLoop_body newMessage processOneWay p echoChan rd rxTS =
     (case rd of
        ReadFailed err \<Rightarrow> Some (p\<lparr>logLines := logLines p @ [ErrorReceiving err]\<rparr>, echoChan)
      | Datagram bs srcAddr \<Rightarrow>
          (if echoMode p then
             (case chanSend echoChan \<lparr>addr = srcAddr, bufLen = 0, buf = bs\<rparr> of
                None \<Rightarrow> None
              | Some echoChan' \<Rightarrow>
                  Some (processMessage newMessage processOneWay p bs rxTS srcAddr, echoChan'))
           else Some (processMessage newMessage processOneWay p bs rxTS srcAddr, echoChan)))"

text \<open>What \<open>conn.WriteToUDP\<close> returns: the bytes written and an error, if any.\<close>
datatype writeError = EOF | WriteFailed string

text \<open>
  One pass of \<open>echoLoop\<close> that takes a message from \<open>msgChan\<close>: the write to the
  message's address is recorded in \<open>writes\<close>, \<open>wr\<close> is what the socket answers. The
  Boolean is whether the loop goes on. With an empty channel the loop waits (\<open>None\<close>).
\<close>
definition echoLoop_body ::
  "int \<times> writeError option \<Rightarrow> Probe \<Rightarrow> echoMsg chan \<Rightarrow> (byte list \<times> string) list
     \<Rightarrow> (bool \<times> Probe \<times> echoMsg chan \<times> (byte list \<times> string) list) option" where
  "echoLoop_body wr p msgChan writes =
     (case queue msgChan of
        [] \<Rightarrow> None
      | msg # rest \<Rightarrow>
          (let msgChan' = msgChan\<lparr>queue := rest\<rparr>;
               writes' = writes @ [(buf msg, addr msg)]
           in case wr of
                (n, Some EOF) \<Rightarrow> Some (False, p, msgChan', writes')
              | (n, Some (WriteFailed e)) \<Rightarrow>
                  Some (True, p\<lparr>logLines := logLines p @ [ErrorWritingEcho (addr msg) e]\<rparr>,
                        msgChan', writes')
              | (n, None) \<Rightarrow>
                  (if n < bufLen msg then
                     Some (True,
                           p\<lparr>logLines := logLines p @ [ReplyTruncated n (bufLen msg) (addr msg)]\<rparr>,
                           msgChan', writes')
                   else Some (True, p, msgChan', writes'))))"

text \<open>The channel \<open>probeLoop\<close> makes for the echo loop; \<open>nil\<close> outside echo mode.\<close>
definition probeLoop_echoChan :: "Probe \<Rightarrow> echoMsg chan option" where
  "probeLoop_echoChan p = (if echoMode p then Some (makeChan maxTargets) else None)"

subsection \<open>initProbeRunResults and outputResults\<close>

text \<open>\<open>listed\<close> is what \<open>p.opts.Targets.ListEndpoints()\<close> returns at this call.\<close>
definition updateTargets :: "endpoint list \<Rightarrow> Probe \<Rightarrow> Probe" where
  "updateTargets listed p = p\<lparr>targets := listed\<rparr>"

definition newProbeRunResult :: "string \<Rightarrow> probeRunResult" where
  "newProbeRunResult name =
     \<lparr>target = name, total = 0, success = 0, ipdUS = 0, lost = 0, delayed = 0\<rparr>"

definition initProbeRunResults :: "endpoint list \<Rightarrow> Probe \<Rightarrow> Probe" where
  "initProbeRunResults listed p =
     (let p1 = updateTargets listed p;
          p2 = (if echoMode p1 \<and> length (targets p1) > maxTargets
                then p1\<lparr>logLines := logLines p1 @ [TooManyTargets (length (targets p1)) maxTargets]\<rparr>
                else p1)
      in p2\<lparr>res := foldl (\<lambda>m t. AList.update (Name t) (newProbeRunResult (Name t)) m)
                     [] (targets p2)\<rparr>)"

text \<open>The body of the loop of \<open>outputResults\<close> for one entry of \<open>p.res\<close>.\<close>
definition reconcile :: "int64 \<Rightarrow> probeRunResult \<Rightarrow> probeRunResult" where
  "reconcile expectedCt r =
     (let delta = expectedCt - total r in
      if 0 <s delta then r\<lparr>total := total r + delta\<rparr> else r)"

text \<open>
  The loop over \<open>p.res\<close>; \<open>stats\<close> is what has been sent on the channel so far. The
  Stats Keeper receives without taking the lock, so a send that has to wait completes
  with the same value; the channel is the sequence of the values sent.
\<close>
fun outputResults_loop ::
  "int64 \<Rightarrow> (string \<times> probeRunResult) list \<Rightarrow> probeRunResult list \<Rightarrow> probeRunResult list" where
  "outputResults_loop expectedCt [] stats = stats"
| "outputResults_loop expectedCt ((k, r) # rs) stats =
     outputResults_loop expectedCt rs (stats @ [reconcile expectedCt r])"

definition outputResults ::
  "int64 \<Rightarrow> endpoint list \<Rightarrow> Probe \<Rightarrow> probeRunResult list \<Rightarrow> Probe \<times> probeRunResult list" where
  "outputResults expectedCt listed p stats =
     (initProbeRunResults listed p, outputResults_loop expectedCt (res p) stats)"

subsection \<open>logErrs and outputLoop\<close>

definition logErrs :: "Probe \<Rightarrow> Probe" where
  "logErrs p =
     (let newVal = throttleCt (errs p) + 1 in
      if newVal \<noteq> logThrottleThreshold then p\<lparr>errs := (errs p)\<lparr>throttleCt := newVal\<rparr>\<rparr>
      else
        (let pe = (errs p)\<lparr>throttleCt := newVal\<rparr>;
             (pe1, l1) =
               (if invalidMsgErrs pe \<noteq> []
                then (pe\<lparr>invalidMsgErrs := []\<rparr>,
                      logLines p @ [InvalidMessagesReceived (invalidMsgErrs pe)])
                else (pe, logLines p));
             (pe2, l2) =
               (if missingTargets pe1 \<noteq> []
                then (pe1\<lparr>missingTargets := []\<rparr>,
                      l1 @ [UnknownTargetsSending (missingTargets pe1)])
                else (pe1, l1))
         in p\<lparr>errs := pe2\<lparr>throttleCt := 0\<rparr>, logLines := l2\<rparr>))"

text \<open>
  One tick of \<open>outputLoop\<close>; \<open>sinceLastExport\<close> is \<open>time.Since(lastExport)\<close>. The loop
  is reached only with \<open>p.opts.Interval\<close> other than 0: the division before the loop has
  already panicked otherwise, and so does the tick here, as \<open>None\<close>.
\<close>
definition outputLoop_tick ::
  "int64 \<Rightarrow> endpoint list \<Rightarrow> Probe \<Rightarrow> probeRunResult list
     \<Rightarrow> (Probe \<times> probeRunResult list) option" where
  "outputLoop_tick sinceLastExport listed p stats =
     (if interval p = 0 then None
      else
        (let roundAdd = int64_quo (interval p) 2 - 1;
             numIntervals = int64_quo (sinceLastExport + roundAdd) (interval p);
             expectedCt = numIntervals * packetsPerProbe p;
             (p', stats') = outputResults expectedCt listed p stats
         in Some (logErrs p', stats')))"

subsection \<open>statsKeeper\<close>

text \<open>
  Modelled from the spec: \<open>metrics.EventMetrics\<close> (package metrics is not among the
  sources), with what the Stats Keeper uses of it: a timestamp, the metrics by name in
  the order they were added, and the labels. All the values \<open>probeRunResult.Metrics\<close>
  stores are \<open>metrics.Int\<close>, so a value is an \<open>int64\<close> and \<open>Add\<close> is the sum, which
  cannot fail. \<open>AddMetric\<close> and \<open>AddLabel\<close> add a name that is not there yet and
  leave one that is; the Stats Keeper only ever adds a label again with the value it
  already has. \<open>Clone\<close> is a deep copy: the value itself.
\<close>
record EventMetrics =
  Timestamp :: time
  metrics :: "(string \<times> int64) list"
  labels :: "(string \<times> string) list"

definition NewEventMetrics :: "time \<Rightarrow> EventMetrics" where
  "NewEventMetrics ts = \<lparr>Timestamp = ts, metrics = [], labels = []\<rparr>"

definition AddMetric :: "string \<Rightarrow> int64 \<Rightarrow> EventMetrics \<Rightarrow> EventMetrics" where
  "AddMetric k v em =
     (case map_of (metrics em) k of
        None \<Rightarrow> em\<lparr>metrics := metrics em @ [(k, v)]\<rparr>
      | Some _ \<Rightarrow> em)"

definition AddLabel :: "string \<Rightarrow> string \<Rightarrow> EventMetrics \<Rightarrow> EventMetrics" where
  "AddLabel k v em =
     (case map_of (labels em) k of
        None \<Rightarrow> em\<lparr>labels := labels em @ [(k, v)]\<rparr>
      | Some _ \<Rightarrow> em)"

definition Clone :: "EventMetrics \<Rightarrow> EventMetrics" where
  "Clone em = em"

text \<open>\<open>probeRunResult.Metrics\<close>; \<open>now\<close> is \<open>time.Now()\<close>.\<close>
definition Metrics :: "probeRunResult \<Rightarrow> time \<Rightarrow> EventMetrics" where
  "Metrics prr now =
     AddMetric ''delayed'' (delayed prr)
       (AddMetric ''lost'' (lost prr)
         (AddMetric ''ipd_us'' (ipdUS prr)
           (AddMetric ''success'' (success prr)
             (AddMetric ''total'' (total prr) (NewEventMetrics now)))))"

text \<open>
  The Stats Keeper's state: its local map \<open>targetMetrics\<close> and what it has handed to
  \<open>opts.RecordMetrics\<close> for \<open>dataChan\<close> (package probes/options is not among the
  sources; the endpoint and the copy it is given are recorded).
\<close>
record statsKeeperState =
  targetMetrics :: "(string \<times> EventMetrics) list"
  dataChan :: "(endpoint \<times> EventMetrics) list"

text \<open>The loop over \<open>em.MetricsKeys()\<close> for one key \<open>k\<close> with \<open>v = em.Metric(k)\<close>.\<close>
definition mergeMetric :: "EventMetrics \<Rightarrow> string \<times> int64 \<Rightarrow> EventMetrics" where
  "mergeMetric tm kv =
     (case map_of (metrics tm) (fst kv) of
        None \<Rightarrow> AddMetric (fst kv) (snd kv) tm
      | Some old \<Rightarrow> tm\<lparr>metrics := AList.update (fst kv) (old + snd kv) (metrics tm)\<rparr>)"

text \<open>The case \<open>result := <-resultsChan\<close>.\<close>
definition statsKeeper_result :: "probeRunResult \<Rightarrow> time \<Rightarrow> statsKeeperState \<Rightarrow> statsKeeperState" where
  "statsKeeper_result result now st =
     (let t = target result in
      case map_of (targetMetrics st) t of
        None \<Rightarrow> st\<lparr>targetMetrics := AList.update t (Metrics result now) (targetMetrics st)\<rparr>
      | Some tm \<Rightarrow>
          st\<lparr>targetMetrics :=
               AList.update t (foldl mergeMetric tm (metrics (Metrics result now)))
                 (targetMetrics st)\<rparr>)"

text \<open>The body of the loop over \<open>p.targets\<close> in the case \<open>ts := <-exportTicker.C\<close>.\<close>
definition exportTarget ::
  "string \<Rightarrow> string \<Rightarrow> time \<Rightarrow> statsKeeperState \<Rightarrow> endpoint \<Rightarrow> statsKeeperState" where
  "exportTarget ptype name ts st t =
     (case map_of (targetMetrics st) (Name t) of
        None \<Rightarrow> st
      | Some em \<Rightarrow>
          (let em' = (AddLabel ''dst'' (Name t)
                       (AddLabel ''probe'' name (AddLabel ''ptype'' ptype em)))\<lparr>Timestamp := ts\<rparr>
           in st\<lparr>targetMetrics := AList.update (Name t) em' (targetMetrics st),
                 dataChan := dataChan st @ [(t, Clone em')]\<rparr>))"

definition statsKeeper_export ::
  "string \<Rightarrow> string \<Rightarrow> Probe \<Rightarrow> time \<Rightarrow> statsKeeperState \<Rightarrow> statsKeeperState" where
  "statsKeeper_export ptype name p ts st = foldl (exportTarget ptype name ts) st (targets p)"

text \<open>
  What the export does to the metrics of one target before it hands the copy on: the
  three calls of \<open>AddLabel\<close> and the assignment to \<open>Timestamp\<close>, as in \<open>exportTarget\<close>.
\<close>
definition labelAndStamp ::
  "string \<Rightarrow> string \<Rightarrow> time \<Rightarrow> endpoint \<Rightarrow> EventMetrics \<Rightarrow> EventMetrics" where
  "labelAndStamp ptype name ts t em =
     (AddLabel ''dst'' (Name t)
       (AddLabel ''probe'' name (AddLabel ''ptype'' ptype em)))\<lparr>Timestamp := ts\<rparr>"

subsection \<open>Example inputs\<close>

text \<open>A decoder that rejects every buffer, as the codec does a truncated one.\<close>
definition rejectAll :: decoder where
  "rejectAll bs = Inl ''message too short''"

text \<open>A decoder for a one-byte toy layout: the byte is the sequence number, the source is fixed.\<close>
definition fromA :: decoder where
  "fromA bs = (case bs of [] \<Rightarrow> Inl ''message too short''
                | b # _ \<Rightarrow> Inr \<lparr>Src = ''a'', Seq = uint b, sendTimestamp = 0\<rparr>)"

definition noErrs :: probeErr where
  "noErrs = \<lparr>throttleCt = 0, invalidMsgErrs = [], missingTargets = []\<rparr>"

definition resultA :: probeRunResult where
  "resultA = \<lparr>target = ''a'', total = 2, success = 1, ipdUS = 7, lost = 1, delayed = 0\<rparr>"

text \<open>A probe that knows the target \<open>a\<close> and has seen its sequence number 5.\<close>
definition probeA :: Probe where
  "probeA = \<lparr>echoMode = False, interval = 1000000000, packetsPerProbe = 1,
             targets = [\<lparr>Name = ''a''\<rparr>],
             fsm = [''a'' \<mapsto> \<lparr>previousSequence = 5, lastReceiveTimestamp = 100\<rparr>],
             errs = noErrs, res = [(''a'', resultA)], logLines = []\<rparr>"

text \<open>A probe whose target list is empty: every sender is unknown to it.\<close>
definition probeNone :: Probe where
  "probeNone = \<lparr>echoMode = False, interval = 1000000000, packetsPerProbe = 1,
                targets = [], fsm = Map.empty, errs = noErrs, res = [], logLines = []\<rparr>"

text \<open>The probe \<open>probeA\<close> nine ticks after the last flush, with one unknown sender recorded.\<close>
definition probeNine :: Probe where
  "probeNine = probeA\<lparr>errs := \<lparr>throttleCt = 9, invalidMsgErrs = [],
                                   missingTargets = [(''b'', 3)]\<rparr>\<rparr>"

text \<open>
  Two export windows of the Stats Keeper for the target \<open>a\<close>: a snapshot with
  \<open>total = 5\<close>, an export tick, a snapshot with \<open>total = 3\<close>, an export tick.
\<close>
definition snapshotFive :: probeRunResult where
  "snapshotFive = \<lparr>target = ''a'', total = 5, success = 5, ipdUS = 0, lost = 0, delayed = 0\<rparr>"

definition snapshotThree :: probeRunResult where
  "snapshotThree = \<lparr>target = ''a'', total = 3, success = 3, ipdUS = 0, lost = 0, delayed = 0\<rparr>"

definition keeperStart :: statsKeeperState where
  "keeperStart = \<lparr>targetMetrics = [], dataChan = []\<rparr>"

definition windowOne :: statsKeeperState where
  "windowOne = statsKeeper_export ''udp'' ''listener'' probeA 10
                 (statsKeeper_result snapshotFive 5 keeperStart)"

definition windowTwo :: statsKeeperState where
  "windowTwo = statsKeeper_export ''udp'' ''listener'' probeA 20
                 (statsKeeper_result snapshotThree 15 windowOne)"

text \<open>The probe \<open>probeA\<close> in echo mode, and an echo channel with all its 1024 places taken.\<close>
definition probeEcho :: Probe where
  "probeEcho = probeA\<lparr>echoMode := True\<rparr>"

definition waitingMsg :: echoMsg where
  "waitingMsg = \<lparr>addr = ''10.0.0.9:5000'', bufLen = 0, buf = [7]\<rparr>"

definition fullChan :: "echoMsg chan" where
  "fullChan = \<lparr>cap = maxTargets, queue = replicate maxTargets waitingMsg\<rparr>"

section \<open>Theorems\<close>

text \<open>
  C9. When decoding fails, \<open>processMessage\<close> returns (it has no failing branch) with
  every accumulator, the flow states and the unknown-sender counts as they were; the only
  change is the entry of the sender's address in \<open>invalidMsgErrs\<close>, which now holds the error.
\<close>
theorem processMessage_decode_failure:
  assumes "newMessage bs = Inl err"
  shows "processMessage newMessage processOneWay p bs rxTS srcAddr =
           p\<lparr>errs := (errs p)\<lparr>invalidMsgErrs :=
                AList.update srcAddr err (invalidMsgErrs (errs p))\<rparr>\<rparr>
         \<and> res (processMessage newMessage processOneWay p bs rxTS srcAddr) = res p
         \<and> fsm (processMessage newMessage processOneWay p bs rxTS srcAddr) = fsm p
         \<and> map_of (invalidMsgErrs (errs (processMessage newMessage processOneWay p bs rxTS srcAddr)))
             = (map_of (invalidMsgErrs (errs p)))(srcAddr \<mapsto> err)"
  using assms by (simp add: processMessage_def update_conv')

theorem processMessage_decode_failure_witness:
  "rejectAll [1, 2] = Inl ''message too short''
   \<and> res (processMessage rejectAll ProcessOneWay probeA [1, 2] 200 ''10.0.0.1:4000'') = res probeA
   \<and> map_of (res probeA) ''a'' = Some resultA
   \<and> invalidMsgErrs (errs (processMessage rejectAll ProcessOneWay probeA [1, 2] 200 ''10.0.0.1:4000''))
       = [(''10.0.0.1:4000'', ''message too short'')]"
  using processMessage_decode_failure [of rejectAll "[1, 2]" "''message too short''"
      ProcessOneWay probeA 200 "''10.0.0.1:4000''"]
  by (simp add: rejectAll_def probeA_def noErrs_def)

text \<open>
  C8. A decoded message whose source has no entry in \<open>p.res\<close> only raises the count of
  that source in \<open>missingTargets\<close> by one: \<open>processMessage\<close> returns before it calls the
  classifier, so the flow states are as they were (no entry is made for the source) and
  so is every accumulator. The function has no failing branch, and \<open>recvLoop\<close> goes on
  to its next read.
\<close>
theorem processMessage_unknown_sender:
  assumes "newMessage bs = Inr msg" and "map_of (res p) (Src msg) = None"
  shows "processMessage newMessage processOneWay p bs rxTS srcAddr =
           p\<lparr>errs := (errs p)\<lparr>missingTargets :=
                AList.update (Src msg) (countOf (missingTargets (errs p)) (Src msg) + 1)
                  (missingTargets (errs p))\<rparr>\<rparr>
         \<and> fsm (processMessage newMessage processOneWay p bs rxTS srcAddr) = fsm p
         \<and> res (processMessage newMessage processOneWay p bs rxTS srcAddr) = res p
         \<and> countOf (missingTargets (errs (processMessage newMessage processOneWay p bs rxTS srcAddr)))
              (Src msg) = countOf (missingTargets (errs p)) (Src msg) + 1"
  using assms by (simp add: processMessage_def update_conv' countOf_def Let_def)

theorem processMessage_unknown_sender_witness:
  "fromA [9] = Inr \<lparr>Src = ''a'', Seq = 9, sendTimestamp = 0\<rparr>
   \<and> map_of (res probeNone) ''a'' = None
   \<and> fsm (processMessage fromA ProcessOneWay probeNone [9] 200 ''10.0.0.1:4000'') ''a'' = None
   \<and> res (processMessage fromA ProcessOneWay probeNone [9] 200 ''10.0.0.1:4000'') = []
   \<and> missingTargets (errs (processMessage fromA ProcessOneWay probeNone [9] 200 ''10.0.0.1:4000''))
        = [(''a'', 1)]"
  using processMessage_unknown_sender [of fromA "[9]" "\<lparr>Src = ''a'', Seq = 9, sendTimestamp = 0\<rparr>"
      probeNone ProcessOneWay 200 "''10.0.0.1:4000''"]
  by (simp add: fromA_def probeNone_def noErrs_def countOf_def)

text \<open>What \<open>processMessage\<close> does with a message of a known target.\<close>
lemma processMessage_accepted:
  assumes "newMessage bs = Inr msg" and "map_of (res p) (Src msg) = Some r"
  shows "processMessage newMessage processOneWay p bs rxTS srcAddr =
           p\<lparr>fsm := snd (processOneWay msg (fsm p) rxTS),
             res := AList.update (Src msg)
                      (foldResult (fst (processOneWay msg (fsm p) rxTS)) (r\<lparr>total := total r + 1\<rparr>))
                      (res p)\<rparr>"
  using assms by (simp add: processMessage_def split: prod.splits)

lemma ProcessOneWay_delayed:
  assumes "fsm0 (Src msg) = Some fs" and "Seq msg \<le> previousSequence fs"
  shows "ProcessOneWay msg fsm0 rxTS =
           (\<lparr>Success = False, LostCount = 0, Delayed = True, InterPktDelay = 0\<rparr>, fsm0)"
  using assms by (simp add: ProcessOneWay_def Let_def)

text \<open>
  C4. For a known target whose source has a flow state, a message with a sequence number
  at or below \<open>previousSequence\<close> is classified as delayed and nothing else, the target's
  \<open>delayed\<close> goes up by one (with its \<open>total\<close>), and the flow states, so the baseline of
  the source, are as they were.
\<close>
theorem delayed_keeps_baseline:
  assumes "newMessage bs = Inr msg"
    and "map_of (res p) (Src msg) = Some r"
    and "fsm p (Src msg) = Some fs"
    and "Seq msg \<le> previousSequence fs"
  shows "Delayed (fst (ProcessOneWay msg (fsm p) rxTS))
         \<and> \<not> Success (fst (ProcessOneWay msg (fsm p) rxTS))
         \<and> LostCount (fst (ProcessOneWay msg (fsm p) rxTS)) = 0
         \<and> map_of (res (processMessage newMessage ProcessOneWay p bs rxTS srcAddr)) (Src msg)
             = Some (r\<lparr>total := total r + 1, delayed := delayed r + 1\<rparr>)
         \<and> fsm (processMessage newMessage ProcessOneWay p bs rxTS srcAddr) = fsm p
         \<and> fsm (processMessage newMessage ProcessOneWay p bs rxTS srcAddr) (Src msg) = Some fs"
  using assms
  by (simp add: processMessage_accepted [where newMessage = newMessage and bs = bs and msg = msg and r = r]
      ProcessOneWay_delayed [where fs = fs] foldResult_def update_conv')

theorem delayed_keeps_baseline_witness:
  "fromA [3] = Inr \<lparr>Src = ''a'', Seq = 3, sendTimestamp = 0\<rparr>
   \<and> map_of (res probeA) ''a'' = Some resultA
   \<and> fsm probeA ''a'' = Some \<lparr>previousSequence = 5, lastReceiveTimestamp = 100\<rparr>
   \<and> (3::int) \<le> 5
   \<and> map_of (res (processMessage fromA ProcessOneWay probeA [3] 200 ''10.0.0.1:4000'')) ''a''
       = Some \<lparr>target = ''a'', total = 3, success = 1, ipdUS = 7, lost = 1, delayed = 1\<rparr>
   \<and> fsm (processMessage fromA ProcessOneWay probeA [3] 200 ''10.0.0.1:4000'') ''a''
       = Some \<lparr>previousSequence = 5, lastReceiveTimestamp = 100\<rparr>"
  using delayed_keeps_baseline [of fromA "[3]" "\<lparr>Src = ''a'', Seq = 3, sendTimestamp = 0\<rparr>"
      probeA resultA "\<lparr>previousSequence = 5, lastReceiveTimestamp = 100\<rparr>" 200 "''10.0.0.1:4000''"]
  by (simp add: fromA_def probeA_def resultA_def noErrs_def)

text \<open>
  C7. A message that decodes and comes from a known target raises that target's \<open>total\<close>
  by one and exactly one of the three outcome counters: the result of the classifier has
  exactly one of \<open>Success\<close>, \<open>LostCount > 0\<close> and \<open>Delayed\<close>, and the counters follow it,
  \<open>success\<close> by one with the delay in microseconds added to \<open>ipdUS\<close>, or \<open>lost\<close> by
  \<open>LostCount\<close>, or \<open>delayed\<close> by one, the others staying. No other target changes.
\<close>
theorem processMessage_one_signal:
  assumes "newMessage bs = Inr msg" and "map_of (res p) (Src msg) = Some r"
  shows "\<exists>r'. map_of (res (processMessage newMessage ProcessOneWay p bs rxTS srcAddr)) (Src msg) = Some r'
           \<and> target r' = target r
           \<and> total r' = total r + 1
           \<and> (let msgRes = fst (ProcessOneWay msg (fsm p) rxTS) in
                (Success msgRes \<and> LostCount msgRes = 0 \<and> \<not> Delayed msgRes
                   \<and> success r' = success r + 1
                   \<and> ipdUS r' = ipdUS r + int64_quo (word_of_int (InterPktDelay msgRes)) 1000
                   \<and> lost r' = lost r \<and> delayed r' = delayed r)
              \<or> (\<not> Success msgRes \<and> LostCount msgRes > 0 \<and> \<not> Delayed msgRes
                   \<and> lost r' = lost r + word_of_int (LostCount msgRes)
                   \<and> success r' = success r \<and> ipdUS r' = ipdUS r \<and> delayed r' = delayed r)
              \<or> (\<not> Success msgRes \<and> LostCount msgRes = 0 \<and> Delayed msgRes
                   \<and> delayed r' = delayed r + 1
                   \<and> success r' = success r \<and> ipdUS r' = ipdUS r \<and> lost r' = lost r))
           \<and> (\<forall>k. k \<noteq> Src msg \<longrightarrow>
                 map_of (res (processMessage newMessage ProcessOneWay p bs rxTS srcAddr)) k
                   = map_of (res p) k)"
  using assms
  by (simp add: processMessage_accepted [where newMessage = newMessage and bs = bs and msg = msg and r = r]
      update_conv' foldResult_def ProcessOneWay_def Let_def split: option.splits)

theorem processMessage_one_signal_witness:
  "fromA [8] = Inr \<lparr>Src = ''a'', Seq = 8, sendTimestamp = 0\<rparr>
   \<and> map_of (res probeA) ''a'' = Some resultA
   \<and> fst (ProcessOneWay \<lparr>Src = ''a'', Seq = 8, sendTimestamp = 0\<rparr> (fsm probeA) 5100)
       = \<lparr>Success = False, LostCount = 2, Delayed = False, InterPktDelay = 0\<rparr>
   \<and> (\<exists>r'. map_of (res (processMessage fromA ProcessOneWay probeA [8] 5100 ''10.0.0.1:4000'')) ''a''
               = Some r'
            \<and> total r' = 3 \<and> lost r' = 3 \<and> success r' = 1 \<and> ipdUS r' = 7 \<and> delayed r' = 0)"
proof -
  have h1: "fromA [8] = Inr \<lparr>Src = ''a'', Seq = 8, sendTimestamp = 0\<rparr>"
    by (simp add: fromA_def)
  have h2: "map_of (res probeA) (Src \<lparr>Src = ''a'', Seq = 8, sendTimestamp = 0\<rparr>) = Some resultA"
    by (simp add: probeA_def)
  have c: "fst (ProcessOneWay \<lparr>Src = ''a'', Seq = 8, sendTimestamp = 0\<rparr> (fsm probeA) 5100)
       = \<lparr>Success = False, LostCount = 2, Delayed = False, InterPktDelay = 0\<rparr>"
    by (simp add: ProcessOneWay_def probeA_def Let_def)
  note t = processMessage_one_signal [of fromA "[8]" "\<lparr>Src = ''a'', Seq = 8, sendTimestamp = 0\<rparr>"
      probeA resultA 5100 "''10.0.0.1:4000''"]
  from t [OF h1 h2]
  obtain r' where
    "map_of (res (processMessage fromA ProcessOneWay probeA [8] 5100 ''10.0.0.1:4000'')) ''a'' = Some r'"
    "total r' = total resultA + 1"
    "(let msgRes = fst (ProcessOneWay \<lparr>Src = ''a'', Seq = 8, sendTimestamp = 0\<rparr> (fsm probeA) 5100) in
                (Success msgRes \<and> LostCount msgRes = 0 \<and> \<not> Delayed msgRes
                   \<and> success r' = success resultA + 1
                   \<and> ipdUS r' = ipdUS resultA + int64_quo (word_of_int (InterPktDelay msgRes)) 1000
                   \<and> lost r' = lost resultA \<and> delayed r' = delayed resultA)
              \<or> (\<not> Success msgRes \<and> LostCount msgRes > 0 \<and> \<not> Delayed msgRes
                   \<and> lost r' = lost resultA + word_of_int (LostCount msgRes)
                   \<and> success r' = success resultA \<and> ipdUS r' = ipdUS resultA \<and> delayed r' = delayed resultA)
              \<or> (\<not> Success msgRes \<and> LostCount msgRes = 0 \<and> Delayed msgRes
                   \<and> delayed r' = delayed resultA + 1
                   \<and> success r' = success resultA \<and> ipdUS r' = ipdUS resultA \<and> lost r' = lost resultA))"
    by auto
  then have "map_of (res (processMessage fromA ProcessOneWay probeA [8] 5100 ''10.0.0.1:4000'')) ''a'' = Some r'
            \<and> total r' = 3 \<and> lost r' = 3 \<and> success r' = 1 \<and> ipdUS r' = 7 \<and> delayed r' = 0"
    by (simp add: c resultA_def)
  then show ?thesis using h1 h2 c by auto
qed

subsection \<open>The Output Loop's reconciliation\<close>

lemma outputResults_loop_eq:
  "outputResults_loop expectedCt rs stats = stats @ map (\<lambda>kr. reconcile expectedCt (snd kr)) rs"
  by (induction rs arbitrary: stats) auto

text \<open>What \<open>outputResults\<close> sends: one snapshot per entry of \<open>p.res\<close>, in the order of the loop.\<close>
lemma outputResults_sent:
  "snd (outputResults expectedCt listed p stats)
     = stats @ map (\<lambda>kr. reconcile expectedCt (snd kr)) (res p)"
  by (simp add: outputResults_def outputResults_loop_eq)

lemma reconcile_total_word:
  "total (reconcile expectedCt r) = (if 0 <s expectedCt - total r then expectedCt else total r)"
  by (simp add: reconcile_def Let_def)

lemma sint_diff_int64:
  fixes a b :: int64
  assumes "- (2 ^ 63) \<le> sint a - sint b" and "sint a - sint b < 2 ^ 63"
  shows "sint (a - b) = sint a - sint b"
  using assms by (simp add: sint_word_ariths signed_take_bit_int_eq_self)

lemma reconcile_total_max:
  assumes "- (2 ^ 63) \<le> sint expectedCt - sint (total r)"
    and "sint expectedCt - sint (total r) < 2 ^ 63"
  shows "sint (total (reconcile expectedCt r)) = max (sint (total r)) (sint expectedCt)"
    and "total (reconcile expectedCt r) = (if total r <s expectedCt then expectedCt else total r)"
  using sint_diff_int64 [OF assms]
  by (auto simp add: reconcile_total_word word_sless_alt)

text \<open>
  C2. At a tick with expected count \<open>expectedCt\<close>, the snapshot sent for the \<open>i\<close>-th
  entry of \<open>p.res\<close> is for the same target and carries the maximum of the observed
  \<open>total\<close> and \<open>expectedCt\<close>: \<open>expectedCt\<close> when the total is below it, the total itself
  otherwise. The counters are \<open>int64\<close> and are read as signed; the difference
  \<open>expectedCt - total\<close> that the code computes must be an \<open>int64\<close>, as it is whenever
  both are counts, that is not negative.
\<close>
theorem outputResults_total_max:
  assumes "i < length (res p)"
    and "- (2 ^ 63) \<le> sint expectedCt - sint (total (snd (res p ! i)))"
    and "sint expectedCt - sint (total (snd (res p ! i))) < 2 ^ 63"
  shows "length (snd (outputResults expectedCt listed p stats)) = length stats + length (res p)
         \<and> target (snd (outputResults expectedCt listed p stats) ! (length stats + i))
             = target (snd (res p ! i))
         \<and> sint (total (snd (outputResults expectedCt listed p stats) ! (length stats + i)))
             = max (sint (total (snd (res p ! i)))) (sint expectedCt)
         \<and> total (snd (outputResults expectedCt listed p stats) ! (length stats + i))
             = (if total (snd (res p ! i)) <s expectedCt then expectedCt
                else total (snd (res p ! i)))"
  using assms(1) reconcile_total_max [OF assms(2,3)]
  by (simp add: outputResults_sent nth_append reconcile_def Let_def)

theorem outputResults_total_max_witness:
  "(0::nat) < length (res probeA)
   \<and> - (2 ^ 63) \<le> sint (5 :: int64) - sint (total (snd (res probeA ! 0)))
   \<and> sint (5 :: int64) - sint (total (snd (res probeA ! 0))) < 2 ^ 63
   \<and> total (snd (res probeA ! 0)) = 2
   \<and> total (snd (outputResults 5 [] probeA []) ! 0) = 5
   \<and> sint (total (snd (outputResults 5 [] probeA []) ! 0)) = 5"
  using outputResults_total_max [of 0 probeA 5 "[]" "[]"]
  by (simp add: probeA_def resultA_def word_sless_alt)

text \<open>
  C5. The snapshot sent for the \<open>i\<close>-th entry of \<open>p.res\<close> has that entry's target,
  \<open>success\<close>, \<open>lost\<close>, \<open>delayed\<close> and \<open>ipdUS\<close>, whatever the expected count is:
  reconciliation writes \<open>total\<close> and nothing else, and \<open>lost\<close> does not receive the
  deficit.
\<close>
theorem outputResults_only_total:
  assumes "i < length (res p)"
  shows "target (snd (outputResults expectedCt listed p stats) ! (length stats + i))
             = target (snd (res p ! i))
         \<and> success (snd (outputResults expectedCt listed p stats) ! (length stats + i))
             = success (snd (res p ! i))
         \<and> lost (snd (outputResults expectedCt listed p stats) ! (length stats + i))
             = lost (snd (res p ! i))
         \<and> delayed (snd (outputResults expectedCt listed p stats) ! (length stats + i))
             = delayed (snd (res p ! i))
         \<and> ipdUS (snd (outputResults expectedCt listed p stats) ! (length stats + i))
             = ipdUS (snd (res p ! i))"
  using assms by (simp add: outputResults_sent nth_append reconcile_def Let_def)

theorem outputResults_only_total_witness:
  "(0::nat) < length (res probeA)
   \<and> total (snd (res probeA ! 0)) = 2 \<and> lost (snd (res probeA ! 0)) = 1
   \<and> snd (outputResults 5 [] probeA []) ! 0
       = \<lparr>target = ''a'', total = 5, success = 1, ipdUS = 7, lost = 1, delayed = 0\<rparr>"
  using outputResults_only_total [of 0 probeA 5 "[]" "[]"]
  by (simp add: probeA_def resultA_def outputResults_sent reconcile_def word_sless_alt)

subsection \<open>The Error Throttler\<close>

lemma processMessage_throttleCt:
  "throttleCt (errs (processMessage newMessage processOneWay p bs rxTS srcAddr)) = throttleCt (errs p)"
  by (simp add: processMessage_def Let_def split: sum.splits option.splits prod.splits)

lemma logErrs_eq:
  "logErrs p =
     (if throttleCt (errs p) + 1 \<noteq> 10
      then p\<lparr>errs := (errs p)\<lparr>throttleCt := throttleCt (errs p) + 1\<rparr>\<rparr>
      else p\<lparr>errs := \<lparr>throttleCt = 0, invalidMsgErrs = [], missingTargets = []\<rparr>,
             logLines := logLines p
               @ (if invalidMsgErrs (errs p) = [] then []
                  else [InvalidMessagesReceived (invalidMsgErrs (errs p))])
               @ (if missingTargets (errs p) = [] then []
                  else [UnknownTargetsSending (missingTargets (errs p))])\<rparr>)"
  by (cases p, cases "errs p") (simp add: logErrs_def logThrottleThreshold_def Let_def)

lemma errs_initProbeRunResults: "errs (initProbeRunResults listed p) = errs p"
  by (simp add: initProbeRunResults_def updateTargets_def Let_def)

lemma outputLoop_tick_errs:
  "map_option (\<lambda>r. errs (fst r)) (outputLoop_tick sinceLastExport listed p stats)
     = (if interval p = 0 then None else Some (errs (logErrs p)))"
  by (simp add: outputLoop_tick_def outputResults_def Let_def logErrs_def errs_initProbeRunResults
      split: prod.splits)

lemma throttle_step:
  assumes "k < 10"
  shows "((of_nat k :: int32) + 1 = 10) = (k = 9)"
proof -
  have "k \<in> {0, 1, 2, 3, 4, 5, 6, 7, 8, 9}" using assms by auto
  then show ?thesis by auto
qed

text \<open>Calls of \<open>logErrs\<close> alone change the counter: after \<open>n\<close> of them it is \<open>n mod 10\<close>.\<close>
lemma throttleCt_funpow:
  assumes "throttleCt (errs p) = 0"
  shows "throttleCt (errs ((logErrs ^^ n) p)) = of_nat (n mod 10)"
proof (induction n)
  case 0
  then show ?case using assms by simp
next
  case (Suc n)
  have k: "n mod 10 < 10" by simp
  show ?case
  proof (cases "n mod 10 = 9")
    case True
    then have "Suc n mod 10 = 0" by presburger
    then show ?thesis using Suc True by (simp add: logErrs_eq)
  next
    case False
    then have "Suc n mod 10 = Suc (n mod 10)" by presburger
    then show ?thesis using Suc False throttle_step [OF k] by (simp add: logErrs_eq)
  qed
qed

text \<open>
  C6, as stated, fails: an error event of the Receive Loop does not touch the counter.
  With the counter at 9, a datagram that fails to decode leaves it at 9; it becomes
  neither 10 nor, by a flush, 0 with the recorded unknown senders cleared.
\<close>
theorem receive_error_counterexample:
  "\<not> (throttleCt (errs (processMessage rejectAll ProcessOneWay probeNine [1, 2] 200 ''10.0.0.1:4000''))
          = throttleCt (errs probeNine) + 1
        \<or> (throttleCt (errs (processMessage rejectAll ProcessOneWay probeNine [1, 2] 200 ''10.0.0.1:4000'')) = 0
           \<and> missingTargets (errs (processMessage rejectAll ProcessOneWay probeNine [1, 2] 200 ''10.0.0.1:4000'')) = []))"
  by (simp add: processMessage_def rejectAll_def probeNine_def probeA_def)

text \<open>
  C6, amended. \<open>processMessage\<close> never changes the counter. Each tick of the Output
  Loop calls \<open>logErrs\<close> once, after \<open>outputResults\<close>, and \<open>logErrs\<close> adds one to the
  counter; when that makes it 10 it logs one warning for each of the two maps that is not
  empty, with the whole map, empties both and sets the counter to 0. Starting from 0 the
  counter after \<open>n\<close> calls is \<open>n mod 10\<close>, so the flush is at every tenth tick.
\<close>
theorem logErrs_every_tenth_tick:
  "throttleCt (errs (processMessage newMessage processOneWay p bs rxTS srcAddr)) = throttleCt (errs p)
   \<and> map_option (\<lambda>r. errs (fst r)) (outputLoop_tick sinceLastExport listed p stats)
       = (if interval p = 0 then None else Some (errs (logErrs p)))
   \<and> logErrs p =
       (if throttleCt (errs p) + 1 \<noteq> 10
        then p\<lparr>errs := (errs p)\<lparr>throttleCt := throttleCt (errs p) + 1\<rparr>\<rparr>
        else p\<lparr>errs := \<lparr>throttleCt = 0, invalidMsgErrs = [], missingTargets = []\<rparr>,
               logLines := logLines p
                 @ (if invalidMsgErrs (errs p) = [] then []
                    else [InvalidMessagesReceived (invalidMsgErrs (errs p))])
                 @ (if missingTargets (errs p) = [] then []
                    else [UnknownTargetsSending (missingTargets (errs p))])\<rparr>)
   \<and> (throttleCt (errs p) = 0 \<longrightarrow>
        throttleCt (errs ((logErrs ^^ n) p)) = of_nat (n mod 10))"
  using processMessage_throttleCt [of newMessage processOneWay p bs rxTS srcAddr]
    outputLoop_tick_errs [of sinceLastExport listed p stats] logErrs_eq [of p]
    throttleCt_funpow [of p n]
  by blast

theorem logErrs_every_tenth_tick_witness:
  "throttleCt (errs probeA) = 0
   \<and> throttleCt (errs ((logErrs ^^ 23) probeA)) = 3
   \<and> throttleCt (errs ((logErrs ^^ 30) probeA)) = 0
   \<and> logErrs probeNine =
        probeNine\<lparr>errs := \<lparr>throttleCt = 0, invalidMsgErrs = [], missingTargets = []\<rparr>,
                  logLines := [UnknownTargetsSending [(''b'', 3)]]\<rparr>"
  using logErrs_every_tenth_tick [of rejectAll ProcessOneWay probeA "[]" 0 "[]" 0 "[]" "[]" 23]
    logErrs_every_tenth_tick [of rejectAll ProcessOneWay probeA "[]" 0 "[]" 0 "[]" "[]" 30]
    logErrs_every_tenth_tick [of rejectAll ProcessOneWay probeNine "[]" 0 "[]" 0 "[]" "[]" 0]
  by (simp add: probeA_def probeNine_def noErrs_def)

subsection \<open>The Stats Keeper's export\<close>

lemma map_update_same_image:
  assumes "map_of al k = Some v" and "g v' = g v"
  shows "map (\<lambda>ke. (fst ke, g (snd ke))) (AList.update k v' al) = map (\<lambda>ke. (fst ke, g (snd ke))) al"
  using assms by (induction al) (auto split: if_splits)

lemma map_of_image:
  "map_of (map (\<lambda>ke. (fst ke, g (snd ke))) al) k = map_option g (map_of al k)"
  by (induction al) auto

lemma lookup_metrics_cong:
  assumes "map (\<lambda>ke. (fst ke, metrics (snd ke))) al = map (\<lambda>ke. (fst ke, metrics (snd ke))) al'"
  shows "map_option metrics (map_of al k) = map_option metrics (map_of al' k)"
  using map_of_image [of metrics al k] map_of_image [of metrics al' k] assms by simp

text \<open>\<open>AddLabel\<close> on the labels, read as a map.\<close>
lemma map_of_labels_AddLabel:
  "map_of (labels (AddLabel k v em)) k'
     = (case map_of (labels em) k' of Some x \<Rightarrow> Some x
        | None \<Rightarrow> if k' = k then Some v else None)"
  by (auto simp add: AddLabel_def map_add_def split: option.splits)

lemma AddLabel_present:
  assumes "map_of (labels em) k = Some x"
  shows "AddLabel k v em = em"
  using assms by (simp add: AddLabel_def)

lemma metrics_AddLabel: "metrics (AddLabel k v em) = metrics em"
  by (simp add: AddLabel_def split: option.splits)

lemma Timestamp_AddLabel: "Timestamp (AddLabel k v em) = Timestamp em"
  by (simp add: AddLabel_def split: option.splits)

text \<open>What \<open>labelAndStamp\<close> leaves and what it sets.\<close>
lemma metrics_labelAndStamp: "metrics (labelAndStamp ptype name ts t em) = metrics em"
  by (simp add: labelAndStamp_def metrics_AddLabel)

lemma Timestamp_labelAndStamp: "Timestamp (labelAndStamp ptype name ts t em) = ts"
  by (simp add: labelAndStamp_def)

lemma labels_labelAndStamp:
  "map_of (labels (labelAndStamp ptype name ts t em)) k
     = (if k = ''ptype'' then Some (case map_of (labels em) k of None \<Rightarrow> ptype | Some v \<Rightarrow> v)
        else if k = ''probe'' then Some (case map_of (labels em) k of None \<Rightarrow> name | Some v \<Rightarrow> v)
        else if k = ''dst'' then Some (case map_of (labels em) k of None \<Rightarrow> Name t | Some v \<Rightarrow> v)
        else map_of (labels em) k)"
  by (simp add: labelAndStamp_def map_of_labels_AddLabel split: option.splits)

text \<open>A second export of the same metrics at the same tick changes nothing.\<close>
lemma labelAndStamp_idem:
  "labelAndStamp ptype name ts t' (labelAndStamp ptype name ts t em)
     = labelAndStamp ptype name ts t em"
proof -
  let ?e = "labelAndStamp ptype name ts t em"
  obtain a where a: "map_of (labels ?e) ''ptype'' = Some a"
    by (simp add: labels_labelAndStamp)
  obtain b where b: "map_of (labels ?e) ''probe'' = Some b"
    by (simp add: labels_labelAndStamp)
  obtain c where c: "map_of (labels ?e) ''dst'' = Some c"
    by (simp add: labels_labelAndStamp)
  have "AddLabel ''dst'' (Name t') (AddLabel ''probe'' name (AddLabel ''ptype'' ptype ?e)) = ?e"
    by (simp add: AddLabel_present [OF a] AddLabel_present [OF b] AddLabel_present [OF c])
  moreover have "?e\<lparr>Timestamp := ts\<rparr> = ?e"
    by (simp add: labelAndStamp_def)
  ultimately show ?thesis
    by (simp add: labelAndStamp_def [of ptype name ts t' ?e])
qed

lemma exportTarget_eq:
  "exportTarget ptype name ts st t =
     (case map_of (targetMetrics st) (Name t) of
        None \<Rightarrow> st
      | Some em \<Rightarrow>
          st\<lparr>targetMetrics := AList.update (Name t) (labelAndStamp ptype name ts t em) (targetMetrics st),
             dataChan := dataChan st @ [(t, labelAndStamp ptype name ts t em)]\<rparr>)"
  by (simp add: exportTarget_def labelAndStamp_def Clone_def Let_def split: option.splits)

text \<open>One target of the export loop, seen from a key of \<open>targetMetrics\<close>.\<close>
lemma exportTarget_lookup:
  "map_of (targetMetrics (exportTarget ptype name ts st t)) n
     = (if n = Name t then map_option (labelAndStamp ptype name ts t) (map_of (targetMetrics st) n)
        else map_of (targetMetrics st) n)"
  by (simp add: exportTarget_eq update_conv' split: option.splits)

lemma exportTarget_metrics:
  "map (\<lambda>ke. (fst ke, metrics (snd ke))) (targetMetrics (exportTarget ptype name ts st t))
     = map (\<lambda>ke. (fst ke, metrics (snd ke))) (targetMetrics st)"
  by (simp add: exportTarget_eq map_update_same_image metrics_labelAndStamp split: option.splits)

lemma foldl_exportTarget_metrics:
  "map (\<lambda>ke. (fst ke, metrics (snd ke))) (targetMetrics (foldl (exportTarget ptype name ts) st ts'))
     = map (\<lambda>ke. (fst ke, metrics (snd ke))) (targetMetrics st)"
  by (induction ts' arbitrary: st) (simp_all add: exportTarget_metrics)

text \<open>The whole loop: a key that names no target of the list keeps its entry.\<close>
lemma foldl_exportTarget_other:
  assumes "n \<notin> Name ` set ts'"
  shows "map_of (targetMetrics (foldl (exportTarget ptype name ts) st ts')) n
           = map_of (targetMetrics st) n"
  using assms by (induction ts' arbitrary: st) (simp_all add: exportTarget_lookup)

text \<open>
  The whole loop: the entry of a target of the list is labelled and stamped, once
  however often the list names it. The labels do not depend on which of the endpoints
  with that name did it, since they all give the same \<open>dst\<close>.
\<close>
lemma labelAndStamp_same_name:
  assumes "Name t = Name u"
  shows "labelAndStamp ptype name ts t em = labelAndStamp ptype name ts u em"
  using assms by (simp add: labelAndStamp_def)

lemma foldl_exportTarget_target:
  assumes "t \<in> set ts'" and "map_of (targetMetrics st) (Name t) = Some em"
  shows "map_of (targetMetrics (foldl (exportTarget ptype name ts) st ts')) (Name t)
           = Some (labelAndStamp ptype name ts t em)"
  using assms
proof (induction ts' arbitrary: st em t)
  case Nil
  then show ?case by simp
next
  case (Cons u us)
  let ?st1 = "exportTarget ptype name ts st u"
  show ?case
  proof (cases "Name u = Name t")
    case True
    have l1: "map_of (targetMetrics ?st1) (Name t) = Some (labelAndStamp ptype name ts t em)"
      using True Cons.prems(2) labelAndStamp_same_name [OF True, of ptype name ts em]
      by (simp add: exportTarget_lookup)
    show ?thesis
    proof (cases "t \<in> set us")
      case True
      from Cons.IH [OF True l1] show ?thesis
        by (simp add: labelAndStamp_idem)
    next
      case False
      show ?thesis
      proof (cases "Name t \<in> Name ` set us")
        case True
        then obtain v where v: "v \<in> set us" and nv: "Name v = Name t" by auto
        from l1 nv have "map_of (targetMetrics ?st1) (Name v) = Some (labelAndStamp ptype name ts t em)"
          by simp
        from Cons.IH [OF v this]
        have "map_of (targetMetrics (foldl (exportTarget ptype name ts) ?st1 us)) (Name v)
                = Some (labelAndStamp ptype name ts v (labelAndStamp ptype name ts t em))" .
        then show ?thesis using nv by (simp add: labelAndStamp_idem)
      next
        case False
        from foldl_exportTarget_other [OF False, of ptype name ts ?st1] l1
        show ?thesis by simp
      qed
    qed
  next
    case False
    then have tu: "t \<noteq> u" by auto
    with Cons.prems(1) have t: "t \<in> set us" by simp
    from False Cons.prems(2) have "map_of (targetMetrics ?st1) (Name t) = Some em"
      by (simp add: exportTarget_lookup)
    from Cons.IH [OF t this] show ?thesis by simp
  qed
qed

text \<open>What the loop hands on, in terms of the entries before the tick.\<close>
lemma foldl_exportTarget_dataChan:
  "dataChan (foldl (exportTarget ptype name ts) st ts')
     = dataChan st
       @ concat (map (\<lambda>t. case map_of (targetMetrics st) (Name t) of None \<Rightarrow> []
                            | Some em \<Rightarrow> [(t, labelAndStamp ptype name ts t em)]) ts')"
proof (induction ts' arbitrary: st)
  case Nil
  then show ?case by simp
next
  case (Cons u us)
  let ?st1 = "exportTarget ptype name ts st u"
  have same: "\<And>t. (case map_of (targetMetrics ?st1) (Name t) of None \<Rightarrow> []
                       | Some em \<Rightarrow> [(t, labelAndStamp ptype name ts t em)])
                  = (case map_of (targetMetrics st) (Name t) of None \<Rightarrow> []
                       | Some em \<Rightarrow> [(t, labelAndStamp ptype name ts t em)])"
  proof -
    fix t
    show "(case map_of (targetMetrics ?st1) (Name t) of None \<Rightarrow> []
             | Some em \<Rightarrow> [(t, labelAndStamp ptype name ts t em)])
          = (case map_of (targetMetrics st) (Name t) of None \<Rightarrow> []
             | Some em \<Rightarrow> [(t, labelAndStamp ptype name ts t em)])"
    proof (cases "Name t = Name u")
      case True
      from labelAndStamp_same_name [OF True, of ptype name ts] True show ?thesis
        by (simp add: exportTarget_lookup labelAndStamp_idem split: option.splits)
    next
      case False
      then show ?thesis by (simp add: exportTarget_lookup)
    qed
  qed
  have step: "dataChan ?st1
                = dataChan st @ (case map_of (targetMetrics st) (Name u) of None \<Rightarrow> []
                                 | Some em \<Rightarrow> [(u, labelAndStamp ptype name ts u em)])"
    by (simp add: exportTarget_eq split: option.splits)
  show ?case
    by (simp add: Cons.IH [of ?st1] same step)
qed

text \<open>The same, in terms of the entries after the tick: the copies are the entries kept.\<close>
lemma foldl_exportTarget_dataChan_kept:
  "dataChan (foldl (exportTarget ptype name ts) st ts')
     = dataChan st
       @ concat (map (\<lambda>t. case map_of (targetMetrics (foldl (exportTarget ptype name ts) st ts'))
                                  (Name t) of None \<Rightarrow> [] | Some em \<Rightarrow> [(t, em)]) ts')"
proof -
  let ?st' = "foldl (exportTarget ptype name ts) st ts'"
  have "\<And>t. t \<in> set ts' \<Longrightarrow>
          (case map_of (targetMetrics ?st') (Name t) of None \<Rightarrow> [] | Some em \<Rightarrow> [(t, em)])
          = (case map_of (targetMetrics st) (Name t) of None \<Rightarrow> []
             | Some em \<Rightarrow> [(t, labelAndStamp ptype name ts t em)])"
  proof -
    fix t assume t: "t \<in> set ts'"
    show "(case map_of (targetMetrics ?st') (Name t) of None \<Rightarrow> [] | Some em \<Rightarrow> [(t, em)])
          = (case map_of (targetMetrics st) (Name t) of None \<Rightarrow> []
             | Some em \<Rightarrow> [(t, labelAndStamp ptype name ts t em)])"
    proof (cases "map_of (targetMetrics st) (Name t)")
      case None
      have "map_option metrics (map_of (targetMetrics ?st') (Name t))
              = map_option metrics (map_of (targetMetrics st) (Name t))"
        by (rule lookup_metrics_cong) (rule foldl_exportTarget_metrics)
      with None have "map_of (targetMetrics ?st') (Name t) = None" by simp
      with None show ?thesis by simp
    next
      case (Some em)
      from foldl_exportTarget_target [OF t Some, of ptype name ts] Some show ?thesis by simp
    qed
  qed
  then have "map (\<lambda>t. case map_of (targetMetrics ?st') (Name t) of None \<Rightarrow> [] | Some em \<Rightarrow> [(t, em)]) ts'
             = map (\<lambda>t. case map_of (targetMetrics st) (Name t) of None \<Rightarrow> []
                         | Some em \<Rightarrow> [(t, labelAndStamp ptype name ts t em)]) ts'"
    by (intro map_cong refl)
  then show ?thesis
    by (simp only: foldl_exportTarget_dataChan [of ptype name ts st ts'])
qed

text \<open>The merge of a snapshot, key by key.\<close>
lemma map_of_metrics_mergeMetric:
  "map_of (metrics (mergeMetric tm kv)) k'
     = (if k' = fst kv
        then Some (case map_of (metrics tm) (fst kv) of None \<Rightarrow> snd kv | Some old \<Rightarrow> old + snd kv)
        else map_of (metrics tm) k')"
  by (auto simp add: mergeMetric_def AddMetric_def update_conv' map_add_def split: option.splits)

lemma map_of_metrics_foldl_mergeMetric:
  assumes "distinct (map fst ms)"
  shows "map_of (metrics (foldl mergeMetric tm ms)) k
           = (case map_of ms k of None \<Rightarrow> map_of (metrics tm) k
              | Some v \<Rightarrow> Some (case map_of (metrics tm) k of None \<Rightarrow> v | Some c \<Rightarrow> c + v))"
  using assms
proof (induction ms arbitrary: tm)
  case Nil
  then show ?case by simp
next
  case (Cons kv ms)
  then have d: "distinct (map fst ms)" and n: "fst kv \<notin> fst ` set ms" by auto
  from n have none: "map_of ms (fst kv) = None" by (simp add: map_of_eq_None_iff)
  show ?case
  proof (cases "k = fst kv")
    case True
    with none Cons.IH [OF d, of "mergeMetric tm kv"] show ?thesis
      by (simp add: map_of_metrics_mergeMetric)
  next
    case False
    with Cons.IH [OF d, of "mergeMetric tm kv"] show ?thesis
      by (auto simp add: map_of_metrics_mergeMetric split: option.splits)
  qed
qed

lemma metrics_Metrics:
  "metrics (Metrics prr now)
     = [(''total'', total prr), (''success'', success prr), (''ipd_us'', ipdUS prr),
        (''lost'', lost prr), (''delayed'', delayed prr)]"
  by (simp add: Metrics_def AddMetric_def NewEventMetrics_def)

lemma statsKeeper_result_merged:
  assumes "map_of (targetMetrics st) (target prr) = Some tm"
  shows "\<exists>tm'. map_of (targetMetrics (statsKeeper_result prr now st)) (target prr) = Some tm'
           \<and> (\<forall>k. map_of (metrics tm') k
                 = (case map_of [(''total'', total prr), (''success'', success prr),
                                 (''ipd_us'', ipdUS prr), (''lost'', lost prr),
                                 (''delayed'', delayed prr)] k of
                      None \<Rightarrow> map_of (metrics tm) k
                    | Some v \<Rightarrow> Some (case map_of (metrics tm) k of None \<Rightarrow> v | Some c \<Rightarrow> c + v)))"
proof -
  let ?ms = "[(''total'', total prr), (''success'', success prr), (''ipd_us'', ipdUS prr),
              (''lost'', lost prr), (''delayed'', delayed prr)]"
  have d: "distinct (map fst ?ms)" by simp
  have "map_of (targetMetrics (statsKeeper_result prr now st)) (target prr)
          = Some (foldl mergeMetric tm ?ms)"
    using assms by (simp add: statsKeeper_result_def Let_def update_conv' metrics_Metrics)
  with map_of_metrics_foldl_mergeMetric [OF d, of tm] show ?thesis by blast
qed

lemma statsKeeper_result_first:
  assumes "map_of (targetMetrics st) (target prr) = None"
  shows "\<exists>tm'. map_of (targetMetrics (statsKeeper_result prr now st)) (target prr) = Some tm'
           \<and> metrics tm' = [(''total'', total prr), (''success'', success prr),
                            (''ipd_us'', ipdUS prr), (''lost'', lost prr),
                            (''delayed'', delayed prr)]"
  using assms by (simp add: statsKeeper_result_def Let_def update_conv' metrics_Metrics)

text \<open>
  C3, as stated, fails: the export tick does not clear the accumulation. After the first
  export the Stats Keeper still holds \<open>total = 5\<close> for the target, and the second export,
  one snapshot with \<open>total = 3\<close> later, forwards \<open>total = 8\<close>: the 5 is counted again.
\<close>
theorem statsKeeper_export_counterexample:
  "map_option (\<lambda>em. map_of (metrics em) ''total'') (map_of (targetMetrics windowOne) ''a'')
     = Some (Some 5)
   \<and> map (\<lambda>te. map_of (metrics (snd te)) ''total'') (dataChan windowTwo) = [Some 5, Some 8]"
  by (simp add: windowTwo_def windowOne_def keeperStart_def snapshotFive_def snapshotThree_def
      probeA_def statsKeeper_export_def exportTarget_def statsKeeper_result_def Metrics_def
      AddMetric_def AddLabel_def NewEventMetrics_def mergeMetric_def Clone_def Let_def)

text \<open>
  C3, amended. At an export tick the Stats Keeper keeps the accumulation and hands on
  copies of it:
  \<^item> the keys of \<open>targetMetrics\<close>, their order and the counters of every entry are after
    the tick what they were before it;
  \<^item> what is handed on is, for each target of \<open>p.targets\<close> in turn that has an entry, the
    endpoint with a copy of the entry as it is kept after the tick;
  \<^item> the entry of a name that is no target's is untouched;
  \<^item> the entry of a target is stamped with the tick's time, has the counters it had,
    and has the labels \<open>ptype\<close>, \<open>probe\<close> and \<open>dst\<close>: the probe type, the probe name and
    the target's name, or the value such a label had already; its other labels are kept;
  \<^item> a snapshot merged after the tick is added to the kept entry counter by counter
    (\<open>total\<close>, \<open>success\<close>, \<open>ipd_us\<close>, \<open>lost\<close>, \<open>delayed\<close>), so what one tick forwarded
    is part of what the next forwards;
  \<^item> a snapshot for a target without an entry starts the entry with its five counters.
\<close>
theorem statsKeeper_export_keeps_counters:
  "map (\<lambda>ke. (fst ke, metrics (snd ke))) (targetMetrics (statsKeeper_export ptype name p ts st))
     = map (\<lambda>ke. (fst ke, metrics (snd ke))) (targetMetrics st)
   \<and> dataChan (statsKeeper_export ptype name p ts st)
       = dataChan st
         @ concat (map (\<lambda>t. case map_of (targetMetrics (statsKeeper_export ptype name p ts st))
                                    (Name t) of
                               None \<Rightarrow> [] | Some em \<Rightarrow> [(t, em)]) (targets p))
   \<and> (\<forall>n. n \<notin> Name ` set (targets p) \<longrightarrow>
          map_of (targetMetrics (statsKeeper_export ptype name p ts st)) n
            = map_of (targetMetrics st) n)
   \<and> (\<forall>t em. t \<in> set (targets p) \<and> map_of (targetMetrics st) (Name t) = Some em \<longrightarrow>
          (\<exists>em'. map_of (targetMetrics (statsKeeper_export ptype name p ts st)) (Name t) = Some em'
             \<and> Timestamp em' = ts
             \<and> metrics em' = metrics em
             \<and> map_of (labels em') ''ptype''
                 = Some (case map_of (labels em) ''ptype'' of None \<Rightarrow> ptype | Some v \<Rightarrow> v)
             \<and> map_of (labels em') ''probe''
                 = Some (case map_of (labels em) ''probe'' of None \<Rightarrow> name | Some v \<Rightarrow> v)
             \<and> map_of (labels em') ''dst''
                 = Some (case map_of (labels em) ''dst'' of None \<Rightarrow> Name t | Some v \<Rightarrow> v)
             \<and> (\<forall>k. k \<noteq> ''ptype'' \<and> k \<noteq> ''probe'' \<and> k \<noteq> ''dst'' \<longrightarrow>
                    map_of (labels em') k = map_of (labels em) k)))
   \<and> (\<forall>tm. map_of (targetMetrics st) (target prr) = Some tm \<longrightarrow>
          (\<exists>tm'. map_of (targetMetrics
                     (statsKeeper_result prr now (statsKeeper_export ptype name p ts st)))
                   (target prr) = Some tm'
             \<and> (\<forall>k. map_of (metrics tm') k
                     = (case map_of [(''total'', total prr), (''success'', success prr),
                                     (''ipd_us'', ipdUS prr), (''lost'', lost prr),
                                     (''delayed'', delayed prr)] k of
                          None \<Rightarrow> map_of (metrics tm) k
                        | Some v \<Rightarrow>
                            Some (case map_of (metrics tm) k of None \<Rightarrow> v | Some c \<Rightarrow> c + v)))))
   \<and> (map_of (targetMetrics st) (target prr) = None \<longrightarrow>
          (\<exists>tm'. map_of (targetMetrics
                     (statsKeeper_result prr now (statsKeeper_export ptype name p ts st)))
                   (target prr) = Some tm'
             \<and> metrics tm' = [(''total'', total prr), (''success'', success prr),
                              (''ipd_us'', ipdUS prr), (''lost'', lost prr),
                              (''delayed'', delayed prr)]))"
proof -
  let ?st' = "statsKeeper_export ptype name p ts st"
  have kept: "map (\<lambda>ke. (fst ke, metrics (snd ke))) (targetMetrics ?st')
                = map (\<lambda>ke. (fst ke, metrics (snd ke))) (targetMetrics st)"
    by (simp add: statsKeeper_export_def foldl_exportTarget_metrics)
  have sent: "dataChan ?st'
                = dataChan st
                  @ concat (map (\<lambda>t. case map_of (targetMetrics ?st') (Name t) of
                                        None \<Rightarrow> [] | Some em \<Rightarrow> [(t, em)]) (targets p))"
    unfolding statsKeeper_export_def by (rule foldl_exportTarget_dataChan_kept)
  have other: "\<forall>n. n \<notin> Name ` set (targets p) \<longrightarrow>
                 map_of (targetMetrics ?st') n = map_of (targetMetrics st) n"
    by (simp add: statsKeeper_export_def foldl_exportTarget_other)
  have stamped: "\<forall>t em. t \<in> set (targets p) \<and> map_of (targetMetrics st) (Name t) = Some em \<longrightarrow>
          (\<exists>em'. map_of (targetMetrics ?st') (Name t) = Some em'
             \<and> Timestamp em' = ts
             \<and> metrics em' = metrics em
             \<and> map_of (labels em') ''ptype''
                 = Some (case map_of (labels em) ''ptype'' of None \<Rightarrow> ptype | Some v \<Rightarrow> v)
             \<and> map_of (labels em') ''probe''
                 = Some (case map_of (labels em) ''probe'' of None \<Rightarrow> name | Some v \<Rightarrow> v)
             \<and> map_of (labels em') ''dst''
                 = Some (case map_of (labels em) ''dst'' of None \<Rightarrow> Name t | Some v \<Rightarrow> v)
             \<and> (\<forall>k. k \<noteq> ''ptype'' \<and> k \<noteq> ''probe'' \<and> k \<noteq> ''dst'' \<longrightarrow>
                    map_of (labels em') k = map_of (labels em) k))"
  proof (intro allI impI)
    fix t em
    assume a: "t \<in> set (targets p) \<and> map_of (targetMetrics st) (Name t) = Some em"
    then have t: "t \<in> set (targets p)" and e: "map_of (targetMetrics st) (Name t) = Some em"
      by simp_all
    have "map_of (targetMetrics ?st') (Name t) = Some (labelAndStamp ptype name ts t em)"
      unfolding statsKeeper_export_def by (rule foldl_exportTarget_target [OF t e])
    then show "\<exists>em'. map_of (targetMetrics ?st') (Name t) = Some em'
             \<and> Timestamp em' = ts
             \<and> metrics em' = metrics em
             \<and> map_of (labels em') ''ptype''
                 = Some (case map_of (labels em) ''ptype'' of None \<Rightarrow> ptype | Some v \<Rightarrow> v)
             \<and> map_of (labels em') ''probe''
                 = Some (case map_of (labels em) ''probe'' of None \<Rightarrow> name | Some v \<Rightarrow> v)
             \<and> map_of (labels em') ''dst''
                 = Some (case map_of (labels em) ''dst'' of None \<Rightarrow> Name t | Some v \<Rightarrow> v)
             \<and> (\<forall>k. k \<noteq> ''ptype'' \<and> k \<noteq> ''probe'' \<and> k \<noteq> ''dst'' \<longrightarrow>
                    map_of (labels em') k = map_of (labels em) k)"
      by (simp add: Timestamp_labelAndStamp metrics_labelAndStamp labels_labelAndStamp)
  qed
  have look: "map_option metrics (map_of (targetMetrics ?st') (target prr))
                = map_option metrics (map_of (targetMetrics st) (target prr))"
    by (rule lookup_metrics_cong) (rule kept)
  have merged: "\<forall>tm. map_of (targetMetrics st) (target prr) = Some tm \<longrightarrow>
          (\<exists>tm'. map_of (targetMetrics (statsKeeper_result prr now ?st')) (target prr) = Some tm'
             \<and> (\<forall>k. map_of (metrics tm') k
                     = (case map_of [(''total'', total prr), (''success'', success prr),
                                     (''ipd_us'', ipdUS prr), (''lost'', lost prr),
                                     (''delayed'', delayed prr)] k of
                          None \<Rightarrow> map_of (metrics tm) k
                        | Some v \<Rightarrow>
                            Some (case map_of (metrics tm) k of None \<Rightarrow> v | Some c \<Rightarrow> c + v))))"
  proof (intro allI impI)
    fix tm
    assume "map_of (targetMetrics st) (target prr) = Some tm"
    with look obtain tm1 where tm1: "map_of (targetMetrics ?st') (target prr) = Some tm1"
      and m: "metrics tm1 = metrics tm"
      by auto
    show "\<exists>tm'. map_of (targetMetrics (statsKeeper_result prr now ?st')) (target prr) = Some tm'
             \<and> (\<forall>k. map_of (metrics tm') k
                     = (case map_of [(''total'', total prr), (''success'', success prr),
                                     (''ipd_us'', ipdUS prr), (''lost'', lost prr),
                                     (''delayed'', delayed prr)] k of
                          None \<Rightarrow> map_of (metrics tm) k
                        | Some v \<Rightarrow>
                            Some (case map_of (metrics tm) k of None \<Rightarrow> v | Some c \<Rightarrow> c + v)))"
      by (rule statsKeeper_result_merged [OF tm1, of now, unfolded m])
  qed
  have first: "map_of (targetMetrics st) (target prr) = None \<longrightarrow>
          (\<exists>tm'. map_of (targetMetrics (statsKeeper_result prr now ?st')) (target prr) = Some tm'
             \<and> metrics tm' = [(''total'', total prr), (''success'', success prr),
                              (''ipd_us'', ipdUS prr), (''lost'', lost prr),
                              (''delayed'', delayed prr)])"
  proof
    assume "map_of (targetMetrics st) (target prr) = None"
    with look have "map_of (targetMetrics ?st') (target prr) = None" by simp
    then show "\<exists>tm'. map_of (targetMetrics (statsKeeper_result prr now ?st')) (target prr) = Some tm'
             \<and> metrics tm' = [(''total'', total prr), (''success'', success prr),
                              (''ipd_us'', ipdUS prr), (''lost'', lost prr),
                              (''delayed'', delayed prr)]"
      by (rule statsKeeper_result_first)
  qed
  from kept sent other stamped merged first show ?thesis by (intro conjI)
qed

theorem statsKeeper_export_keeps_counters_witness:
  "\<lparr>Name = ''a''\<rparr> \<in> set (targets probeA)
   \<and> ''b'' \<notin> Name ` set (targets probeA)
   \<and> map_of (targetMetrics keeperStart) (target snapshotFive) = None
   \<and> map_of (targetMetrics (statsKeeper_result snapshotFive 5 keeperStart)) ''a''
       = Some (Metrics snapshotFive 5)
   \<and> map_of (targetMetrics windowOne) ''b''
       = map_of (targetMetrics (statsKeeper_result snapshotFive 5 keeperStart)) ''b''
   \<and> (\<exists>em'. map_of (targetMetrics windowOne) ''a'' = Some em'
          \<and> dataChan windowOne = [(\<lparr>Name = ''a''\<rparr>, em')]
          \<and> Timestamp em' = 10
          \<and> metrics em' = [(''total'', 5), (''success'', 5), (''ipd_us'', 0), (''lost'', 0),
                           (''delayed'', 0)]
          \<and> map_of (labels em') ''ptype'' = Some ''udp''
          \<and> map_of (labels em') ''probe'' = Some ''listener''
          \<and> map_of (labels em') ''dst'' = Some ''a'')
   \<and> (\<exists>tm'. map_of (targetMetrics (statsKeeper_result snapshotThree 15 windowOne)) ''a'' = Some tm'
          \<and> map_of (metrics tm') ''total'' = Some 8
          \<and> map_of (metrics tm') ''success'' = Some 8
          \<and> map_of (metrics tm') ''ipd_us'' = Some 0
          \<and> map_of (metrics tm') ''lost'' = Some 0
          \<and> map_of (metrics tm') ''delayed'' = Some 0)
   \<and> (\<exists>tm'. map_of (targetMetrics
                  (statsKeeper_result snapshotFive 5
                     (statsKeeper_export ''udp'' ''listener'' probeA 10 keeperStart))) ''a''
               = Some tm'
          \<and> metrics tm' = [(''total'', 5), (''success'', 5), (''ipd_us'', 0), (''lost'', 0),
                           (''delayed'', 0)])"
proof -
  let ?st0 = "statsKeeper_result snapshotFive 5 keeperStart"
  let ?a = "\<lparr>Name = ''a''\<rparr>"
  have ta: "?a \<in> set (targets probeA)" by (simp add: probeA_def)
  have nb: "''b'' \<notin> Name ` set (targets probeA)" by (simp add: probeA_def)
  have k0: "map_of (targetMetrics keeperStart) (target snapshotFive) = None"
    by (simp add: keeperStart_def)
  have s0: "map_of (targetMetrics ?st0) ''a'' = Some (Metrics snapshotFive 5)"
    by (simp add: statsKeeper_result_def keeperStart_def snapshotFive_def)
  have na: "Name ?a = ''a''" by simp
  have t3: "target snapshotThree = ''a''" by (simp add: snapshotThree_def)
  have t5: "target snapshotFive = ''a''" by (simp add: snapshotFive_def)
  have m0: "metrics (Metrics snapshotFive 5)
              = [(''total'', 5), (''success'', 5), (''ipd_us'', 0), (''lost'', 0), (''delayed'', 0)]"
    by (simp add: Metrics_def AddMetric_def NewEventMetrics_def snapshotFive_def)
  have l0: "labels (Metrics snapshotFive 5) = []"
    by (simp add: Metrics_def AddMetric_def NewEventMetrics_def)
  note one = statsKeeper_export_keeps_counters
               [of "''udp''" "''listener''" probeA 10 ?st0 snapshotThree 15, folded windowOne_def]
  note two = statsKeeper_export_keeps_counters
               [of "''udp''" "''listener''" probeA 10 keeperStart snapshotFive 5]
  note sent = one [THEN conjunct2, THEN conjunct1]
  note other = one [THEN conjunct2, THEN conjunct2, THEN conjunct1, rule_format]
  note stamped = one [THEN conjunct2, THEN conjunct2, THEN conjunct2, THEN conjunct1, rule_format]
  note merged = one [THEN conjunct2, THEN conjunct2, THEN conjunct2, THEN conjunct2,
                     THEN conjunct1, rule_format]
  note first = two [THEN conjunct2, THEN conjunct2, THEN conjunct2, THEN conjunct2,
                    THEN conjunct2, rule_format]
  have ob: "map_of (targetMetrics windowOne) ''b'' = map_of (targetMetrics ?st0) ''b''"
    by (rule other [OF nb])
  have "?a \<in> set (targets probeA) \<and> map_of (targetMetrics ?st0) (Name ?a) = Some (Metrics snapshotFive 5)"
    using ta s0 by simp
  from stamped [OF this] obtain em' where
    e1: "map_of (targetMetrics windowOne) (Name ?a) = Some em'"
    and e2: "Timestamp em' = 10"
    and e3: "metrics em' = metrics (Metrics snapshotFive 5)"
    and e4: "map_of (labels em') ''ptype''
               = Some (case map_of (labels (Metrics snapshotFive 5)) ''ptype'' of
                         None \<Rightarrow> ''udp'' | Some v \<Rightarrow> v)"
    and e5: "map_of (labels em') ''probe''
               = Some (case map_of (labels (Metrics snapshotFive 5)) ''probe'' of
                         None \<Rightarrow> ''listener'' | Some v \<Rightarrow> v)"
    and e6: "map_of (labels em') ''dst''
               = Some (case map_of (labels (Metrics snapshotFive 5)) ''dst'' of
                         None \<Rightarrow> Name ?a | Some v \<Rightarrow> v)"
    by (elim exE conjE)
  from e1 have e1': "map_of (targetMetrics windowOne) ''a'' = Some em'" by simp
  have "targets probeA = [?a]" by (simp add: probeA_def)
  with sent e1' have d1: "dataChan windowOne = [(?a, em')]"
    by (simp add: statsKeeper_result_def keeperStart_def)
  have c1: "\<exists>em'. map_of (targetMetrics windowOne) ''a'' = Some em'
          \<and> dataChan windowOne = [(?a, em')]
          \<and> Timestamp em' = 10
          \<and> metrics em' = [(''total'', 5), (''success'', 5), (''ipd_us'', 0), (''lost'', 0),
                           (''delayed'', 0)]
          \<and> map_of (labels em') ''ptype'' = Some ''udp''
          \<and> map_of (labels em') ''probe'' = Some ''listener''
          \<and> map_of (labels em') ''dst'' = Some ''a''"
    using e1' d1 e2 e3 e4 e5 e6 by (simp add: m0 l0)
  have "map_of (targetMetrics ?st0) (target snapshotThree) = Some (Metrics snapshotFive 5)"
    using s0 by (simp only: t3)
  from merged [OF this] obtain tm' where
    r1: "map_of (targetMetrics (statsKeeper_result snapshotThree 15 windowOne)) (target snapshotThree)
           = Some tm'"
    and r2: "\<forall>k. map_of (metrics tm') k
               = (case map_of [(''total'', total snapshotThree), (''success'', success snapshotThree),
                               (''ipd_us'', ipdUS snapshotThree), (''lost'', lost snapshotThree),
                               (''delayed'', delayed snapshotThree)] k of
                    None \<Rightarrow> map_of (metrics (Metrics snapshotFive 5)) k
                  | Some v \<Rightarrow>
                      Some (case map_of (metrics (Metrics snapshotFive 5)) k of
                              None \<Rightarrow> v | Some c \<Rightarrow> c + v))"
    by (elim exE conjE)
  from r1 have r1': "map_of (targetMetrics (statsKeeper_result snapshotThree 15 windowOne)) ''a''
                       = Some tm'"
    by (simp only: t3)
  have v1: "map_of (metrics tm') ''total'' = Some 8"
    using r2 [rule_format, of "''total''"] by (simp add: m0 snapshotThree_def)
  have v2: "map_of (metrics tm') ''success'' = Some 8"
    using r2 [rule_format, of "''success''"] by (simp add: m0 snapshotThree_def)
  have v3: "map_of (metrics tm') ''ipd_us'' = Some 0"
    using r2 [rule_format, of "''ipd_us''"] by (simp add: m0 snapshotThree_def)
  have v4: "map_of (metrics tm') ''lost'' = Some 0"
    using r2 [rule_format, of "''lost''"] by (simp add: m0 snapshotThree_def)
  have v5: "map_of (metrics tm') ''delayed'' = Some 0"
    using r2 [rule_format, of "''delayed''"] by (simp add: m0 snapshotThree_def)
  have c2: "\<exists>tm'. map_of (targetMetrics (statsKeeper_result snapshotThree 15 windowOne)) ''a''
                        = Some tm'
          \<and> map_of (metrics tm') ''total'' = Some 8
          \<and> map_of (metrics tm') ''success'' = Some 8
          \<and> map_of (metrics tm') ''ipd_us'' = Some 0
          \<and> map_of (metrics tm') ''lost'' = Some 0
          \<and> map_of (metrics tm') ''delayed'' = Some 0"
    using r1' v1 v2 v3 v4 v5 by (intro exI [of _ tm'] conjI)
  from first [OF k0] obtain tm'' where
    f1: "map_of (targetMetrics
                  (statsKeeper_result snapshotFive 5
                     (statsKeeper_export ''udp'' ''listener'' probeA 10 keeperStart)))
                  (target snapshotFive) = Some tm''"
    and f2: "metrics tm'' = [(''total'', total snapshotFive), (''success'', success snapshotFive),
                           (''ipd_us'', ipdUS snapshotFive), (''lost'', lost snapshotFive),
                           (''delayed'', delayed snapshotFive)]"
    by (elim exE conjE)
  from f1 have f1': "map_of (targetMetrics
                  (statsKeeper_result snapshotFive 5
                     (statsKeeper_export ''udp'' ''listener'' probeA 10 keeperStart))) ''a''
               = Some tm''"
    by (simp only: t5)
  from f2 have f2': "metrics tm'' = [(''total'', 5), (''success'', 5), (''ipd_us'', 0), (''lost'', 0),
                           (''delayed'', 0)]"
    by (simp add: snapshotFive_def)
  have c3: "\<exists>tm'. map_of (targetMetrics
                  (statsKeeper_result snapshotFive 5
                     (statsKeeper_export ''udp'' ''listener'' probeA 10 keeperStart))) ''a''
               = Some tm'
          \<and> metrics tm' = [(''total'', 5), (''success'', 5), (''ipd_us'', 0), (''lost'', 0),
                           (''delayed'', 0)]"
    using f1' f2' by (intro exI [of _ tm''] conjI)
  from ta nb k0 s0 ob c1 c2 c3 show ?thesis by (intro conjI)
qed

subsection \<open>The hand-off to the Echo Loop\<close>

text \<open>A pass of \<open>recvLoop\<close> in echo mode: the send comes first and decides whether the pass goes on.\<close>
lemma recvLoop_body_echo:
  assumes "echoMode p"
  shows "recvLoop_body newMessage processOneWay p ch (Datagram bs srcAddr) rxTS =
           (if length (queue ch) < cap ch
            then Some (processMessage newMessage processOneWay p bs rxTS srcAddr,
                       ch\<lparr>queue := queue ch @ [\<lparr>addr = srcAddr, bufLen = 0, buf = bs\<rparr>]\<rparr>)
            else None)"
  using assms by (simp add: recvLoop_body_def chanSend_def)

text \<open>A pass of \<open>echoLoop\<close> takes the oldest message and writes its bytes to its address.\<close>
lemma echoLoop_body_head:
  assumes "queue ch = m # rest"
  shows "\<exists>cont p'. echoLoop_body wr p ch writes
           = Some (cont, p', ch\<lparr>queue := rest\<rparr>, writes @ [(buf m, addr m)])
         \<and> echoMode p' = echoMode p"
proof (cases wr)
  case (Pair n e)
  show ?thesis
  proof (cases e)
    case None
    with Pair assms show ?thesis by (auto simp add: echoLoop_body_def Let_def)
  next
    case (Some we)
    with Pair assms show ?thesis by (cases we) (auto simp add: echoLoop_body_def Let_def)
  qed
qed

text \<open>
  C1, as stated, fails: the send to the echo channel is a plain blocking send. With the
  1024 places of the channel taken, the pass of \<open>recvLoop\<close> has no result: it waits in
  the send. It does not go on to \<open>processMessage\<close> with the channel as it was, which is
  what dropping the datagram for the echo would be.
\<close>
theorem recvLoop_full_channel_counterexample:
  "echoMode probeEcho \<and> cap fullChan = 1024 \<and> length (queue fullChan) = 1024
   \<and> recvLoop_body fromA ProcessOneWay probeEcho fullChan (Datagram [6] ''10.0.0.1:4000'') 200 = None
   \<and> recvLoop_body fromA ProcessOneWay probeEcho fullChan (Datagram [6] ''10.0.0.1:4000'') 200
       \<noteq> Some (processMessage fromA ProcessOneWay probeEcho [6] 200 ''10.0.0.1:4000'', fullChan)"
  by (simp add: recvLoop_body_def chanSend_def probeEcho_def fullChan_def maxTargets_def)

text \<open>
  C1, amended. In echo mode the channel \<open>probeLoop\<close> makes has 1024 places, and the pass
  of \<open>recvLoop\<close> sends before it processes: with a free place the datagram is appended
  to the channel and \<open>processMessage\<close> runs on it; with no free place the pass waits in
  the send. Once \<open>echoLoop\<close> has taken the oldest message the pass completes, with the
  datagram appended and processed: no datagram is dropped for the echo.
\<close>
theorem recvLoop_echo_send_waits:
  assumes "echoMode p"
  shows "probeLoop_echoChan p = Some \<lparr>cap = 1024, queue = []\<rparr>
         \<and> recvLoop_body newMessage processOneWay p ch (Datagram bs srcAddr) rxTS =
             (if length (queue ch) < cap ch
              then Some (processMessage newMessage processOneWay p bs rxTS srcAddr,
                         ch\<lparr>queue := queue ch @ [\<lparr>addr = srcAddr, bufLen = 0, buf = bs\<rparr>]\<rparr>)
              else None)
         \<and> (\<forall>m rest. queue ch = m # rest \<and> length (queue ch) = cap ch \<longrightarrow>
               (\<exists>cont p'. echoLoop_body wr p ch writes
                   = Some (cont, p', ch\<lparr>queue := rest\<rparr>, writes @ [(buf m, addr m)])
                 \<and> recvLoop_body newMessage processOneWay p' (ch\<lparr>queue := rest\<rparr>)
                     (Datagram bs srcAddr) rxTS
                   = Some (processMessage newMessage processOneWay p' bs rxTS srcAddr,
                           ch\<lparr>queue := rest @ [\<lparr>addr = srcAddr, bufLen = 0, buf = bs\<rparr>]\<rparr>)))"
proof (intro conjI allI impI)
  show "probeLoop_echoChan p = Some \<lparr>cap = 1024, queue = []\<rparr>"
    using assms by (simp add: probeLoop_echoChan_def makeChan_def maxTargets_def)
  show "recvLoop_body newMessage processOneWay p ch (Datagram bs srcAddr) rxTS =
             (if length (queue ch) < cap ch
              then Some (processMessage newMessage processOneWay p bs rxTS srcAddr,
                         ch\<lparr>queue := queue ch @ [\<lparr>addr = srcAddr, bufLen = 0, buf = bs\<rparr>]\<rparr>)
              else None)"
    by (rule recvLoop_body_echo [OF assms])
next
  fix m rest
  assume full: "queue ch = m # rest \<and> length (queue ch) = cap ch"
  then have q: "queue ch = m # rest" and room: "length rest < cap ch" by auto
  from echoLoop_body_head [OF q, of wr p writes] obtain cont p' where
    e: "echoLoop_body wr p ch writes = Some (cont, p', ch\<lparr>queue := rest\<rparr>, writes @ [(buf m, addr m)])"
    and m: "echoMode p' = echoMode p"
    by blast
  from m assms have "echoMode p'" by simp
  from recvLoop_body_echo [OF this, of newMessage processOneWay "ch\<lparr>queue := rest\<rparr>" bs srcAddr rxTS]
    room
  have "recvLoop_body newMessage processOneWay p' (ch\<lparr>queue := rest\<rparr>) (Datagram bs srcAddr) rxTS
          = Some (processMessage newMessage processOneWay p' bs rxTS srcAddr,
                  ch\<lparr>queue := rest @ [\<lparr>addr = srcAddr, bufLen = 0, buf = bs\<rparr>]\<rparr>)"
    by simp
  with e show "\<exists>cont p'. echoLoop_body wr p ch writes
                   = Some (cont, p', ch\<lparr>queue := rest\<rparr>, writes @ [(buf m, addr m)])
                 \<and> recvLoop_body newMessage processOneWay p' (ch\<lparr>queue := rest\<rparr>)
                     (Datagram bs srcAddr) rxTS
                   = Some (processMessage newMessage processOneWay p' bs rxTS srcAddr,
                           ch\<lparr>queue := rest @ [\<lparr>addr = srcAddr, bufLen = 0, buf = bs\<rparr>]\<rparr>)"
    by blast
qed

theorem recvLoop_echo_send_waits_witness:
  "echoMode probeEcho
   \<and> queue fullChan = waitingMsg # replicate 1023 waitingMsg \<and> length (queue fullChan) = cap fullChan
   \<and> recvLoop_body fromA ProcessOneWay probeEcho fullChan (Datagram [6] ''10.0.0.1:4000'') 200 = None
   \<and> (\<exists>cont p'. echoLoop_body (1, None) probeEcho fullChan []
          = Some (cont, p', fullChan\<lparr>queue := replicate 1023 waitingMsg\<rparr>, [([7], ''10.0.0.9:5000'')])
        \<and> recvLoop_body fromA ProcessOneWay p' (fullChan\<lparr>queue := replicate 1023 waitingMsg\<rparr>)
            (Datagram [6] ''10.0.0.1:4000'') 200
          = Some (processMessage fromA ProcessOneWay p' [6] 200 ''10.0.0.1:4000'',
                  fullChan\<lparr>queue := replicate 1023 waitingMsg
                              @ [\<lparr>addr = ''10.0.0.1:4000'', bufLen = 0, buf = [6]\<rparr>]\<rparr>))"
proof -
  have e: "echoMode probeEcho" by (simp add: probeEcho_def)
  have "(1024::nat) = Suc 1023" by simp
  then have q: "queue fullChan = waitingMsg # replicate 1023 waitingMsg"
    by (simp only: fullChan_def maxTargets_def chan.simps replicate_Suc)
  have l: "length (queue fullChan) = cap fullChan"
    by (simp add: fullChan_def)
  note t = recvLoop_echo_send_waits [OF e, of fromA ProcessOneWay fullChan "[6]" "''10.0.0.1:4000''" 200
      "(1, None)" "[]"]
  from t l have n: "recvLoop_body fromA ProcessOneWay probeEcho fullChan
                      (Datagram [6] ''10.0.0.1:4000'') 200 = None"
    by simp
  from t q l have "\<exists>cont p'. echoLoop_body (1, None) probeEcho fullChan []
          = Some (cont, p', fullChan\<lparr>queue := replicate 1023 waitingMsg\<rparr>,
                  [] @ [(buf waitingMsg, addr waitingMsg)])
        \<and> recvLoop_body fromA ProcessOneWay p' (fullChan\<lparr>queue := replicate 1023 waitingMsg\<rparr>)
            (Datagram [6] ''10.0.0.1:4000'') 200
          = Some (processMessage fromA ProcessOneWay p' [6] 200 ''10.0.0.1:4000'',
                  fullChan\<lparr>queue := replicate 1023 waitingMsg
                              @ [\<lparr>addr = ''10.0.0.1:4000'', bufLen = 0, buf = [6]\<rparr>]\<rparr>)"
    by blast
  then have "\<exists>cont p'. echoLoop_body (1, None) probeEcho fullChan []
          = Some (cont, p', fullChan\<lparr>queue := replicate 1023 waitingMsg\<rparr>, [([7], ''10.0.0.9:5000'')])
        \<and> recvLoop_body fromA ProcessOneWay p' (fullChan\<lparr>queue := replicate 1023 waitingMsg\<rparr>)
            (Datagram [6] ''10.0.0.1:4000'') 200
          = Some (processMessage fromA ProcessOneWay p' [6] 200 ''10.0.0.1:4000'',
                  fullChan\<lparr>queue := replicate 1023 waitingMsg
                              @ [\<lparr>addr = ''10.0.0.1:4000'', bufLen = 0, buf = [6]\<rparr>]\<rparr>)"
    by (simp add: waitingMsg_def)
  with e q l n show ?thesis by blast
qed

text \<open>
  C10. In echo mode a pass of \<open>recvLoop\<close> with a free place in the channel appends the
  datagram's bytes and sender to the channel whatever the decoder and the classifier
  do with it, so also when decoding fails or the sender is unknown; \<open>echoLoop\<close> writes
  the bytes of the message it takes to that message's address. From an empty channel,
  the next pass of \<open>echoLoop\<close> writes the datagram back to its sender.
\<close>
theorem recvLoop_echoes_before_decoding:
  assumes "echoMode p" and "length (queue ch) < cap ch"
  shows "(\<exists>p'. recvLoop_body newMessage processOneWay p ch (Datagram bs srcAddr) rxTS
            = Some (p', ch\<lparr>queue := queue ch @ [\<lparr>addr = srcAddr, bufLen = 0, buf = bs\<rparr>]\<rparr>))
         \<and> (\<forall>m rest. queue ch = m # rest \<longrightarrow>
               (\<exists>cont p'. echoLoop_body wr p ch writes
                  = Some (cont, p', ch\<lparr>queue := rest\<rparr>, writes @ [(buf m, addr m)])))
         \<and> (queue ch = [] \<longrightarrow>
               (\<exists>p' ch' cont p'' ch''.
                   recvLoop_body newMessage processOneWay p ch (Datagram bs srcAddr) rxTS
                     = Some (p', ch')
                 \<and> echoLoop_body wr p' ch' writes
                     = Some (cont, p'', ch'', writes @ [(bs, srcAddr)])))"
proof (intro conjI allI impI)
  show "\<exists>p'. recvLoop_body newMessage processOneWay p ch (Datagram bs srcAddr) rxTS
            = Some (p', ch\<lparr>queue := queue ch @ [\<lparr>addr = srcAddr, bufLen = 0, buf = bs\<rparr>]\<rparr>)"
    using assms by (simp add: recvLoop_body_echo)
next
  fix m rest
  assume "queue ch = m # rest"
  from echoLoop_body_head [OF this, of wr p writes]
  show "\<exists>cont p'. echoLoop_body wr p ch writes
          = Some (cont, p', ch\<lparr>queue := rest\<rparr>, writes @ [(buf m, addr m)])"
    by blast
next
  assume empty: "queue ch = []"
  let ?e = "\<lparr>addr = srcAddr, bufLen = 0, buf = bs\<rparr>"
  let ?p' = "processMessage newMessage processOneWay p bs rxTS srcAddr"
  let ?ch' = "ch\<lparr>queue := queue ch @ [?e]\<rparr>"
  have r: "recvLoop_body newMessage processOneWay p ch (Datagram bs srcAddr) rxTS = Some (?p', ?ch')"
    using assms by (simp add: recvLoop_body_echo)
  have "queue ?ch' = ?e # []" using empty by simp
  from echoLoop_body_head [OF this, of wr ?p' writes] obtain cont p'' where
    "echoLoop_body wr ?p' ?ch' writes = Some (cont, p'', ?ch'\<lparr>queue := []\<rparr>, writes @ [(bs, srcAddr)])"
    by auto
  with r show "\<exists>p' ch' cont p'' ch''.
                   recvLoop_body newMessage processOneWay p ch (Datagram bs srcAddr) rxTS
                     = Some (p', ch')
                 \<and> echoLoop_body wr p' ch' writes
                     = Some (cont, p'', ch'', writes @ [(bs, srcAddr)])"
    by blast
qed

theorem recvLoop_echoes_before_decoding_witness:
  "echoMode probeEcho \<and> length (queue (makeChan maxTargets :: echoMsg chan)) < cap (makeChan maxTargets :: echoMsg chan)
   \<and> queue (makeChan maxTargets :: echoMsg chan) = []
   \<and> rejectAll [1, 2] = Inl ''message too short''
   \<and> (\<exists>p' ch' cont p'' ch''.
         recvLoop_body rejectAll ProcessOneWay probeEcho (makeChan maxTargets)
             (Datagram [1, 2] ''10.0.0.1:4000'') 200 = Some (p', ch')
       \<and> echoLoop_body (2, None) p' ch' [] = Some (cont, p'', ch'', [([1, 2], ''10.0.0.1:4000'')]))"
proof -
  have e: "echoMode probeEcho" by (simp add: probeEcho_def)
  have l: "length (queue (makeChan maxTargets :: echoMsg chan)) < cap (makeChan maxTargets :: echoMsg chan)"
    by (simp add: makeChan_def maxTargets_def)
  have q: "queue (makeChan maxTargets :: echoMsg chan) = []" by (simp add: makeChan_def)
  have d: "rejectAll [1, 2] = Inl ''message too short''" by (simp add: rejectAll_def)
  from recvLoop_echoes_before_decoding [OF e l, of rejectAll ProcessOneWay "[1, 2]" "''10.0.0.1:4000''"
      200 "(2, None)" "[]"] q
  have "\<exists>p' ch' cont p'' ch''.
         recvLoop_body rejectAll ProcessOneWay probeEcho (makeChan maxTargets)
             (Datagram [1, 2] ''10.0.0.1:4000'') 200 = Some (p', ch')
       \<and> echoLoop_body (2, None) p' ch' [] = Some (cont, p'', ch'', [([1, 2], ''10.0.0.1:4000'')])"
    by simp
  with e l q d show ?thesis by blast
qed

end
